theory Spec2Isabelle
  imports Main
begin

section \<open>Values and the store\<close>

text \<open>
  The interpreter's values are JavaScript objects compared with \<open>===\<close>, so an \<open>Obj\<close>
  reference is an address and the objects live in a store. \<open>ObjType\<close> is the enum of the
  source; \<open>Obj\<close> is the tagged union (the \<open>ObjFn\<close> shape with tag \<open>Fn\<close> or \<open>Macro\<close> is split
  in two constructors). A native function is named by the primitive it holds.
  A Number's payload is a JavaScript number. The model has the integers of magnitude up
  to \<open>2^53\<close>, on which JavaScript's arithmetic is exact, and \<open>NaN\<close>, the result of \<open>0/0\<close>.
  The other doubles (fractions, the infinities) are not represented: where the reader or
  an operation would produce one, the model stops with \<open>Unmodelled\<close>. (The negative zero
  is the integer 0: the two differ only in the sign of a quotient by them, which is an
  infinity.) \<open>strictEq\<close> is \<open>===\<close> on payloads: \<open>NaN\<close> is not equal to itself.
\<close>

type_synonym addr = nat

datatype ObjType = TPair | TSymbol | TNil | TEnv | TNum | TNativeFn | TFn | TString | TMacro

datatype numop = Plus | Minus | Times | Divide

datatype number = IntNum int | NaN

fun strictEq :: "number \<Rightarrow> number \<Rightarrow> bool" where
  "strictEq (IntNum x) (IntNum y) = (x = y)"
| "strictEq NaN y = False"
| "strictEq x NaN = False"

definition maxExact :: int where
  "maxExact = 9007199254740992"

definition exact :: "int \<Rightarrow> number option" where
  "exact i = (if - maxExact \<le> i \<and> i \<le> maxExact then Some (IntNum i) else None)"

datatype prim =
    PrimFn | PrimDefine | PrimDefn | PrimDefmacro | PrimQuote | PrimUnquote | PrimList
  | PrimCons | PrimEnv | PrimMacex | PrimImport | PrimIf | PrimError | PrimString
  | PrimSlurp | PrimPrintln | PrimReaderDebug | PrimEqual | PrimNumeric numop

datatype Obj =
    ObjPair (car: addr) (cdr: addr)
  | ObjSymbol string
  | ObjNil
  | ObjEnv addr addr
  | ObjNum number
  | ObjNativeFn prim
  | ObjFn addr addr addr
  | ObjMacro addr addr addr
  | ObjString string

text \<open>
  \<open>ObjEnv vars up\<close>; \<open>ObjFn params body env\<close> and \<open>ObjMacro params body env\<close>.
  The selectors \<open>car\<close> and \<open>cdr\<close> are used only where TypeScript has narrowed the object
  to a Pair.
\<close>

fun typeOf :: "Obj \<Rightarrow> ObjType" where
  "typeOf (ObjPair _ _) = TPair"
| "typeOf (ObjSymbol _) = TSymbol"
| "typeOf ObjNil = TNil"
| "typeOf (ObjEnv _ _) = TEnv"
| "typeOf (ObjNum _) = TNum"
| "typeOf (ObjNativeFn _) = TNativeFn"
| "typeOf (ObjFn _ _ _) = TFn"
| "typeOf (ObjMacro _ _ _) = TMacro"
| "typeOf (ObjString _) = TString"

text \<open>
  The state: the store with its allocation pointer (every \<open>make...\<close> call takes the next
  address), the module variable \<open>symbols\<close> and the files \<open>Deno.readTextFileSync\<close> can read.
  The list \<open>symbols\<close> is private to \<open>intern\<close> (no Pair of it is ever handed to the
  interpreter), so it is kept as the list of the interned Symbol objects, newest first.
  Console output (\<open>puts\<close>) is not part of the model.
\<close>

record state =
  heap :: "addr \<Rightarrow> Obj"
  top :: addr
  symbols :: "addr list"
  files :: "string \<Rightarrow> string option"

text \<open>
  The module's constants \<open>nil = makeNil()\<close> and \<open>trueSym = intern('t')\<close> are the first two
  objects made when the module is loaded.
\<close>

definition nil :: addr where
  "nil = 0"

definition trueSym :: addr where
  "trueSym = 1"

definition initState :: "(string \<Rightarrow> string option) \<Rightarrow> state" where
  "initState fs =
     \<lparr>heap = (\<lambda>_. ObjNil)(0 := ObjNil, 1 := ObjSymbol ''t''), top = 2, symbols = [1], files = fs\<rparr>"

subsection \<open>Results\<close>

text \<open>
  \<open>throw new Error(msg)\<close> is \<open>Throw (Error msg)\<close>; the state at the throw is kept, since
  the stores done before it stay done. \<open>Unmodelled\<close> marks the places where the model
  stops short of JavaScript (a number that is neither an integer up to \<open>2^53\<close> nor \<open>NaN\<close>,
  a missing file's Deno error). \<open>Timeout\<close> is the fuel running out: every loop and every recursive call of
  the source takes fuel, so a computation that does not return is \<open>Timeout\<close> for every
  fuel. Loops that only read the store return an \<open>option\<close>, \<open>None\<close> for \<open>Timeout\<close>.
\<close>

datatype error = Error string | Unmodelled string

datatype 'a res = Ok 'a state | Throw error state | Timeout

definition bnd :: "'a res \<Rightarrow> ('a \<Rightarrow> state \<Rightarrow> 'b res) \<Rightarrow> 'b res" where
  "bnd r f = (case r of Ok x s \<Rightarrow> f x s | Throw e s \<Rightarrow> Throw e s | Timeout \<Rightarrow> Timeout)"

definition alloc :: "Obj \<Rightarrow> state \<Rightarrow> addr \<times> state" where
  "alloc c s = (top s, s\<lparr>heap := (heap s)(top s := c), top := Suc (top s)\<rparr>)"

definition cons :: "addr \<Rightarrow> addr \<Rightarrow> state \<Rightarrow> addr \<times> state" where
  "cons a d s = alloc (ObjPair a d) s"

definition acons :: "addr \<Rightarrow> addr \<Rightarrow> addr \<Rightarrow> state \<Rightarrow> addr \<times> state" where
  "acons x y a s = (let (b, s1) = cons x y s in cons b a s1)"

text \<open>\<open>tail.cdr = v\<close>, \<open>bind.cdr = v\<close>, \<open>list.cdr = v\<close>: a store to the \<open>cdr\<close> field of a Pair.\<close>

definition setCdr :: "addr \<Rightarrow> addr \<Rightarrow> state \<Rightarrow> state" where
  "setCdr p v s = s\<lparr>heap := (heap s)(p := ObjPair (car (heap s p)) v)\<rparr>"

section \<open>Utilities that read the store\<close>

text \<open>\<open>listLen\<close>: 0 for a non-Pair; otherwise the number of Pairs on the \<open>cdr\<close> chain, plus
  one when the chain does not end in the object \<open>nil\<close> itself.\<close>

fun listLen_loop :: "nat \<Rightarrow> (addr \<Rightarrow> Obj) \<Rightarrow> addr \<Rightarrow> nat \<Rightarrow> nat option" where
  "listLen_loop 0 h obj len = None"
| "listLen_loop (Suc k) h obj len =
     (case h obj of
        ObjPair a d \<Rightarrow> listLen_loop k h d (len + 1)
      | _ \<Rightarrow> Some (if obj \<noteq> nil then len + 1 else len))"

definition listLen :: "nat \<Rightarrow> (addr \<Rightarrow> Obj) \<Rightarrow> addr \<Rightarrow> nat option" where
  "listLen k h list =
     (case h list of ObjPair a d \<Rightarrow> listLen_loop k h list 0 | _ \<Rightarrow> Some 0)"

text \<open>\<open>equal\<close>: the type tags first, then reference equality, then by variant.\<close>

fun equal :: "nat \<Rightarrow> (addr \<Rightarrow> Obj) \<Rightarrow> addr \<Rightarrow> addr \<Rightarrow> bool option" where
  "equal 0 h a b = None"
| "equal (Suc k) h a b =
     (if typeOf (h a) \<noteq> typeOf (h b) then Some False
      else if a = b then Some True
      else (case (h a, h b) of
          (ObjNum x, ObjNum y) \<Rightarrow> Some (strictEq x y)
        | (ObjString x, ObjString y) \<Rightarrow> Some (x = y)
        | (ObjPair a1 a2, ObjPair b1 b2) \<Rightarrow>
            (case listLen k h a of
               None \<Rightarrow> None
             | Some m \<Rightarrow>
                (case listLen k h b of
                   None \<Rightarrow> None
                 | Some n \<Rightarrow>
                    if m \<noteq> n then Some False
                    else (case equal k h a1 b1 of
                            None \<Rightarrow> None
                          | Some False \<Rightarrow> Some False
                          | Some True \<Rightarrow> equal k h a2 b2)))
        | _ \<Rightarrow> Some False))"

section \<open>Symbols and environments\<close>

text \<open>\<open>intern\<close>: the first Symbol of that name in \<open>symbols\<close>, or a new one put in front.\<close>

definition isSymbolNamed :: "(addr \<Rightarrow> Obj) \<Rightarrow> string \<Rightarrow> addr \<Rightarrow> bool" where
  "isSymbolNamed h nm a = (case h a of ObjSymbol n \<Rightarrow> n = nm | _ \<Rightarrow> False)"

definition intern :: "string \<Rightarrow> state \<Rightarrow> addr \<times> state" where
  "intern nm s =
     (case List.find (isSymbolNamed (heap s) nm) (symbols s) of
        Some sy \<Rightarrow> (sy, s)
      | None \<Rightarrow>
          (let (sy, s1) = alloc (ObjSymbol nm) s
           in (sy, s1\<lparr>symbols := sy # symbols s1\<rparr>)))"

text \<open>\<open>addVariable\<close>: \<open>env.vars = acons(sym, val, env.vars)\<close>. Its \<open>env\<close> is typed \<open>ObjEnv\<close>.\<close>

definition addVariable :: "addr \<Rightarrow> addr \<Rightarrow> addr \<Rightarrow> state \<Rightarrow> state" where
  "addVariable env sy val s =
     (case heap s env of
        ObjEnv vars up \<Rightarrow>
          (let (c, s1) = acons sy val vars s
           in s1\<lparr>heap := (heap s1)(env := ObjEnv c up)\<rparr>)
      | _ \<Rightarrow> s)"

text \<open>
  \<open>setVariable\<close> and \<open>find\<close> contain the same two nested loops: the outer one walks the
  environments along \<open>up\<close>, the inner one walks \<open>vars\<close> for the first element \<open>bind\<close> that
  is a Pair with \<open>bind.car === sym\<close>. \<open>varsLookup\<close> is the inner loop and \<open>envLookup\<close> the
  outer one; they return the \<open>bind\<close> found (\<open>Some None\<close> when the walk ends without one).
  \<open>find\<close> then reads \<open>bind.cdr\<close> and \<open>setVariable\<close> stores to it.
\<close>

fun varsLookup :: "nat \<Rightarrow> (addr \<Rightarrow> Obj) \<Rightarrow> addr \<Rightarrow> addr \<Rightarrow> addr option option" where
  "varsLookup 0 h sy obj = None"
| "varsLookup (Suc k) h sy obj =
     (case h obj of
        ObjPair bind rest \<Rightarrow>
          (case h bind of
             ObjPair key v \<Rightarrow> if key = sy then Some (Some bind) else varsLookup k h sy rest
           | _ \<Rightarrow> varsLookup k h sy rest)
      | _ \<Rightarrow> Some None)"

fun envLookup :: "nat \<Rightarrow> (addr \<Rightarrow> Obj) \<Rightarrow> addr \<Rightarrow> addr \<Rightarrow> addr option option" where
  "envLookup 0 h sy cenv = None"
| "envLookup (Suc k) h sy cenv =
     (case h cenv of
        ObjEnv vars up \<Rightarrow>
          (case varsLookup k h sy vars of
             None \<Rightarrow> None
           | Some (Some bind) \<Rightarrow> Some (Some bind)
           | Some None \<Rightarrow> envLookup k h sy up)
      | _ \<Rightarrow> Some None)"

definition find' :: "nat \<Rightarrow> (addr \<Rightarrow> Obj) \<Rightarrow> addr \<Rightarrow> addr \<Rightarrow> addr option option" where
  "find' k h env sy =
     (case envLookup k h sy env of
        None \<Rightarrow> None
      | Some None \<Rightarrow> Some None
      | Some (Some bind) \<Rightarrow> Some (Some (cdr (h bind))))"

definition setVariable :: "nat \<Rightarrow> addr \<Rightarrow> addr \<Rightarrow> addr \<Rightarrow> state \<Rightarrow> unit res" where
  "setVariable k env sy val s =
     (case envLookup k (heap s) sy env of
        None \<Rightarrow> Timeout
      | Some (Some bind) \<Rightarrow> Ok () (setCdr bind val s)
      | Some None \<Rightarrow> Ok () (addVariable env sy val s))"

text \<open>\<open>pushEnv\<close>: the length check, then the loop that runs while both lists are Pairs.\<close>

fun pushEnv_loop :: "nat \<Rightarrow> addr \<Rightarrow> addr \<Rightarrow> addr \<Rightarrow> state \<Rightarrow> (addr \<times> state) option" where
  "pushEnv_loop 0 varObj valueObj newVars s = None"
| "pushEnv_loop (Suc k) varObj valueObj newVars s =
     (case heap s varObj of
        ObjPair v vd \<Rightarrow>
          (case heap s valueObj of
             ObjPair x xd \<Rightarrow>
               (let (nv, s1) = acons v x newVars s in pushEnv_loop k vd xd nv s1)
           | _ \<Rightarrow> Some (newVars, s))
      | _ \<Rightarrow> Some (newVars, s))"

definition pushEnv :: "nat \<Rightarrow> addr \<Rightarrow> addr \<Rightarrow> addr \<Rightarrow> state \<Rightarrow> addr res" where
  "pushEnv k env vars values s =
     (case listLen k (heap s) vars of
        None \<Rightarrow> Timeout
      | Some m \<Rightarrow>
         (case listLen k (heap s) values of
            None \<Rightarrow> Timeout
          | Some n \<Rightarrow>
              if m \<noteq> n then Throw (Error ''env: mismatched number of vars and values'') s
              else (case pushEnv_loop k vars values nil s of
                      None \<Rightarrow> Timeout
                    | Some (newVars, s1) \<Rightarrow>
                        (let (e, s2) = alloc (ObjEnv newVars env) s1 in Ok e s2))))"

section \<open>Argument lists\<close>

text \<open>
  \<open>forEach(list, callback)\<close>: the callbacks of the source assign to variables of the
  enclosing function; these are the accumulator \<open>acc\<close>. \<open>obj.cdr\<close> is read after the
  callback has run. (No callback of the source uses the index.)
\<close>

fun forEach :: "nat \<Rightarrow> addr \<Rightarrow> (addr \<Rightarrow> 'a \<Rightarrow> state \<Rightarrow> 'a res) \<Rightarrow> 'a \<Rightarrow> state \<Rightarrow> 'a res" where
  "forEach 0 list cb acc s = Timeout"
| "forEach (Suc k) list cb acc s =
     (case heap s list of
        ObjPair a d \<Rightarrow> bnd (cb a acc s) (\<lambda>acc' s'. forEach k (cdr (heap s' list)) cb acc' s')
      | _ \<Rightarrow> Ok acc s)"

definition isList :: "(addr \<Rightarrow> Obj) \<Rightarrow> addr \<Rightarrow> bool" where
  "isList h list = (list = nil \<or> typeOf (h list) = TPair)"

text \<open>\<open>checkArity(args, min, max)\<close>, with \<open>-1\<close> for no bound.\<close>

definition checkArity :: "nat \<Rightarrow> addr \<Rightarrow> int \<Rightarrow> int \<Rightarrow> state \<Rightarrow> unit res" where
  "checkArity k args mn mx s =
     (case listLen k (heap s) args of
        None \<Rightarrow> Timeout
      | Some len \<Rightarrow>
          if (mn \<noteq> -1 \<and> int len < mn) \<or> (mx \<noteq> -1 \<and> int len > mx)
          then Throw (Error ''arity mismatch'') s
          else Ok () s)"

fun typeName :: "ObjType \<Rightarrow> string" where
  "typeName TPair = ''pair''"
| "typeName TSymbol = ''symbol''"
| "typeName TNil = ''nil''"
| "typeName TEnv = ''env''"
| "typeName TNum = ''num''"
| "typeName TNativeFn = ''nativefn''"
| "typeName TFn = ''fn''"
| "typeName TString = ''string''"
| "typeName TMacro = ''macro''"

definition typeError :: "ObjType \<Rightarrow> ObjType \<Rightarrow> error" where
  "typeError want got = Error (''expected type '' @ typeName want @ '' but got '' @ typeName got)"

text \<open>\<open>getArg(_, args, index, type?)\<close>: the argument at \<open>index\<close>, \<open>nil\<close> when the list is
  shorter; nothing is evaluated. (Its unused first parameter is left out.)\<close>

fun getArg_loop :: "nat \<Rightarrow> (addr \<Rightarrow> Obj) \<Rightarrow> addr \<Rightarrow> nat \<Rightarrow> nat \<Rightarrow> addr option" where
  "getArg_loop 0 h obj argIndex index = None"
| "getArg_loop (Suc k) h obj argIndex index =
     (case h obj of
        ObjPair a d \<Rightarrow> if argIndex = index then Some a else getArg_loop k h d (argIndex + 1) index
      | _ \<Rightarrow> Some nil)"

definition getArg :: "nat \<Rightarrow> addr \<Rightarrow> nat \<Rightarrow> ObjType option \<Rightarrow> state \<Rightarrow> addr res" where
  "getArg k args index ty s =
     (if args = nil then Ok nil s
      else (case heap s args of
         ObjPair a d \<Rightarrow>
           (case getArg_loop k (heap s) args 0 index of
              None \<Rightarrow> Timeout
            | Some arg \<Rightarrow>
               (case ty of
                  None \<Rightarrow> Ok arg s
                | Some t \<Rightarrow>
                    if typeOf (heap s arg) \<noteq> t then Throw (typeError t (typeOf (heap s arg))) s
                    else Ok arg s))
       | _ \<Rightarrow> Throw (Error ''expected list as arguments'') s))"

section \<open>The evaluator\<close>

text \<open>
  \<open>evaluate\<close>, \<open>macroExpand\<close>, \<open>apply\<close>, \<open>evaluateList\<close>, \<open>evaluateUnquotes\<close> and the
  primitives call each other. Each is written with the evaluator it calls as its
  parameter \<open>ev\<close> (of type \<open>evalfn\<close>); \<open>evaluate\<close> at the end closes the loop, handing
  every call one unit of fuel less.
\<close>

type_synonym evalfn = "addr \<Rightarrow> addr \<Rightarrow> state \<Rightarrow> addr res"

definition evalArg :: "nat \<Rightarrow> evalfn \<Rightarrow> addr \<Rightarrow> addr \<Rightarrow> nat \<Rightarrow> ObjType option \<Rightarrow> state \<Rightarrow> addr res" where
  "evalArg k ev env args index ty s =
     bnd (getArg k args index None s) (\<lambda>arg s1.
     bnd (ev env arg s1) (\<lambda>earg s2.
       (case ty of
          None \<Rightarrow> Ok earg s2
        | Some t \<Rightarrow>
            if typeOf (heap s2 earg) \<noteq> t then Throw (typeError t (typeOf (heap s2 earg))) s2
            else Ok earg s2)))"

text \<open>\<open>evaluateList\<close>: \<open>head\<close> and \<open>tail\<close> are \<open>ObjPair | null\<close>.\<close>

fun evaluateList_loop ::
  "nat \<Rightarrow> evalfn \<Rightarrow> addr \<Rightarrow> addr \<Rightarrow> addr option \<Rightarrow> addr option \<Rightarrow> state \<Rightarrow> addr res" where
  "evaluateList_loop 0 ev env obj head tail s = Timeout"
| "evaluateList_loop (Suc k) ev env obj head tail s =
     (case heap s obj of
        ObjPair a d \<Rightarrow>
          bnd (ev env a s) (\<lambda>result s1.
            (case head of
               None \<Rightarrow>
                 (let (c, s2) = cons result nil s1
                  in evaluateList_loop k ev env (cdr (heap s2 obj)) (Some c) (Some c) s2)
             | Some hc \<Rightarrow>
                 (case tail of
                    Some tc \<Rightarrow>
                      (let (c, s2) = cons result nil s1; s3 = setCdr tc c s2
                       in evaluateList_loop k ev env (cdr (heap s3 obj)) head
                            (Some (cdr (heap s3 tc))) s3)
                  | None \<Rightarrow> evaluateList_loop k ev env (cdr (heap s1 obj)) head tail s1)))
      | _ \<Rightarrow> Ok (case head of None \<Rightarrow> nil | Some hc \<Rightarrow> hc) s)"

definition evaluateList :: "nat \<Rightarrow> evalfn \<Rightarrow> addr \<Rightarrow> addr \<Rightarrow> state \<Rightarrow> addr res" where
  "evaluateList k ev env list s = evaluateList_loop k ev env list None None s"

text \<open>\<open>macroExpand\<close>: the new environment's parent is the environment of the call.\<close>

definition macroExpand :: "nat \<Rightarrow> evalfn \<Rightarrow> addr \<Rightarrow> addr \<Rightarrow> state \<Rightarrow> addr res" where
  "macroExpand k ev env obj s =
     (case heap s obj of
        ObjPair a args \<Rightarrow>
          (case heap s a of
             ObjSymbol nm \<Rightarrow>
               (case find' k (heap s) env a of
                  None \<Rightarrow> Timeout
                | Some None \<Rightarrow> Ok obj s
                | Some (Some bind) \<Rightarrow>
                    (case heap s bind of
                       ObjMacro params body menv \<Rightarrow>
                         bnd (pushEnv k env params args s) (\<lambda>newEnv s1.
                           forEach k body (\<lambda>form result. ev newEnv form) nil s1)
                     | _ \<Rightarrow> Ok obj s))
           | _ \<Rightarrow> Ok obj s)
      | _ \<Rightarrow> Ok obj s)"

text \<open>\<open>evaluateUnquotes\<close> calls itself on every element of a list that is not an
  \<open>unquote\<close> form, and builds a new list of the results as \<open>evaluateList\<close> does.\<close>

fun evaluateUnquotes :: "nat \<Rightarrow> evalfn \<Rightarrow> addr \<Rightarrow> addr \<Rightarrow> state \<Rightarrow> addr res"
  and evaluateUnquotes_loop ::
    "nat \<Rightarrow> evalfn \<Rightarrow> addr \<Rightarrow> addr \<Rightarrow> addr \<Rightarrow> addr option \<Rightarrow> addr option \<Rightarrow> state \<Rightarrow> addr res" where
  "evaluateUnquotes 0 ev env args s = Timeout"
| "evaluateUnquotes (Suc k) ev env args s =
     (case heap s args of
        ObjPair a d \<Rightarrow>
          (let (u, s1) = intern ''unquote'' s
           in if a = u then ev env args s1
              else evaluateUnquotes_loop k ev env args args None None s1)
      | _ \<Rightarrow> Ok args s)"
| "evaluateUnquotes_loop 0 ev env args obj head tail s = Timeout"
| "evaluateUnquotes_loop (Suc k) ev env args obj head tail s =
     (case heap s obj of
        ObjPair a d \<Rightarrow>
          bnd (evaluateUnquotes k ev env a s) (\<lambda>result s1.
            (case head of
               None \<Rightarrow>
                 (let (c, s2) = cons result nil s1
                  in evaluateUnquotes_loop k ev env args (cdr (heap s2 obj)) (Some c) (Some c) s2)
             | Some hc \<Rightarrow>
                 (case tail of
                    Some tc \<Rightarrow>
                      (let (c, s2) = cons result nil s1; s3 = setCdr tc c s2
                       in evaluateUnquotes_loop k ev env args (cdr (heap s3 obj)) head
                            (Some (cdr (heap s3 tc))) s3)
                  | None \<Rightarrow>
                      evaluateUnquotes_loop k ev env args (cdr (heap s1 obj)) head tail s1)))
      | _ \<Rightarrow> Ok (case head of None \<Rightarrow> args | Some hc \<Rightarrow> hc) s)"

section \<open>The reader\<close>

text \<open>
  The class \<open>Reader\<close>: the source text and the position in it. A method that moves the
  position returns the new Reader. \<open>peek\<close> is \<open>None\<close> past the end, where JavaScript
  reads \<open>undefined\<close>.
\<close>

record Reader =
  source :: string
  pos :: nat

definition peek :: "Reader \<Rightarrow> nat \<Rightarrow> char option" where
  "peek r offset =
     (if pos r + offset < length (source r) then Some (source r ! (pos r + offset)) else None)"

definition atEof :: "Reader \<Rightarrow> bool" where
  "atEof r = (pos r \<ge> length (source r))"

definition advance :: "Reader \<Rightarrow> Reader" where
  "advance r = (if pos r < length (source r) then r\<lparr>pos := pos r + 1\<rparr> else r)"

definition consume :: "char \<Rightarrow> Reader \<Rightarrow> state \<Rightarrow> Reader res" where
  "consume c r s =
     (if peek r 0 = Some c then Ok (advance r) s
      else Throw (Error (''syntax error: expected '' @ [c] @ '' but not ''
                   @ (case peek r 0 of Some d \<Rightarrow> [d] | None \<Rightarrow> ''undefined''))) s)"

definition isSpace :: "char \<Rightarrow> bool" where
  "isSpace c = (c = CHR '' '' \<or> c = CHR 0x0A \<or> c = CHR 0x09)"

definition isDigit :: "char \<Rightarrow> bool" where
  "isDigit c = (c \<in> set ''0123456789'')"

text \<open>The class \<open>[a-z-+=/*!?]\<close> of \<open>readSymbol\<close>.\<close>

definition isSymbolChar :: "char \<Rightarrow> bool" where
  "isSymbolChar c = (c \<in> set ''abcdefghijklmnopqrstuvwxyz-+=/*!?'')"

text \<open>The scanning loops advance while a test holds of the next character.\<close>

definition scanWhile :: "(char \<Rightarrow> bool) \<Rightarrow> Reader \<Rightarrow> string" where
  "scanWhile p r = takeWhile p (drop (pos r) (source r))"

definition skipWhitespace :: "Reader \<Rightarrow> Reader" where
  "skipWhitespace r = r\<lparr>pos := pos r + length (scanWhile isSpace r)\<rparr>"

definition skipLine :: "Reader \<Rightarrow> Reader" where
  "skipLine r = r\<lparr>pos := pos r + length (scanWhile (\<lambda>c. c \<noteq> CHR 0x0A) r)\<rparr>"

function skipComments :: "Reader \<Rightarrow> Reader" where
  "skipComments r =
     (if \<not> atEof r \<and> peek r 0 = Some CHR ''#'' \<and> peek r 1 \<noteq> Some CHR ''-''
      then skipComments (skipWhitespace (skipLine r))
      else r)"
  by pat_completeness auto
termination
proof (relation "measure (\<lambda>r. length (source r) - pos r)")
  show "wf (measure (\<lambda>r. length (source r) - pos r))" by simp
next
  fix r :: Reader
  assume a: "\<not> atEof r \<and> peek r 0 = Some CHR ''#'' \<and> peek r 1 \<noteq> Some CHR ''-''"
  then have lt: "pos r < length (source r)" and c: "source r ! pos r = CHR ''#''"
    by (auto simp: atEof_def peek_def split: if_splits)
  from lt obtain x xs where d: "drop (pos r) (source r) = x # xs"
    by (cases "drop (pos r) (source r)") auto
  with lt c have "x = CHR ''#''"
    by (metis nth_via_drop)
  with d have "length (scanWhile (\<lambda>c. c \<noteq> CHR 0x0A) r) \<ge> 1"
    by (simp add: scanWhile_def)
  with lt show "(skipWhitespace (skipLine r), r) \<in> measure (\<lambda>r. length (source r) - pos r)"
    by (simp add: skipWhitespace_def skipLine_def)
qed

declare skipComments.simps [simp del]

text \<open>\<open>parseInt(digits, 10)\<close> on a run of digits. Beyond \<open>2^53\<close> JavaScript rounds the
  number: there \<open>readNumber\<close> stops with \<open>Unmodelled\<close>.\<close>

definition parseInt :: "string \<Rightarrow> int" where
  "parseInt ds = int (foldl (\<lambda>n c. 10 * n + (of_char c - 48)) 0 ds)"

definition readNumber :: "Reader \<Rightarrow> state \<Rightarrow> (addr \<times> Reader) res" where
  "readNumber r s =
     (let ds = scanWhile isDigit r
      in (case exact (parseInt ds) of
            None \<Rightarrow> Throw (Unmodelled ''parseInt'') s
          | Some v \<Rightarrow>
              (let (n, s1) = alloc (ObjNum v) s
               in Ok (n, r\<lparr>pos := pos r + length ds\<rparr>) s1)))"

definition readSymbol :: "Reader \<Rightarrow> state \<Rightarrow> (addr \<times> Reader) res" where
  "readSymbol r s =
     (let run = scanWhile isSymbolChar r
      in if run = [] then Throw (Error ''could not read symbol'') s
         else (let (sy, s1) = intern run s in Ok (sy, r\<lparr>pos := pos r + length run\<rparr>) s1))"

definition readString :: "Reader \<Rightarrow> state \<Rightarrow> (addr \<times> Reader) res" where
  "readString r s =
     (let run = scanWhile (\<lambda>c. c \<noteq> CHR 0x22) r
      in bnd (consume (CHR 0x22) (r\<lparr>pos := pos r + length run\<rparr>) s) (\<lambda>r1 s1.
           (let (str, s2) = alloc (ObjString run) s1 in Ok (str, r1) s2)))"

text \<open>
  \<open>readNext\<close>, \<open>readQuote\<close>, \<open>readUnquote\<close> and \<open>readList\<close> call each other; \<open>rn\<close> is the
  \<open>readNext\<close> they call. \<open>readNext\<close> returns \<open>None\<close> for JavaScript's \<open>null\<close>.
\<close>

type_synonym readfn = "Reader \<Rightarrow> state \<Rightarrow> (addr option \<times> Reader) res"

definition readQuote :: "readfn \<Rightarrow> Reader \<Rightarrow> state \<Rightarrow> (addr \<times> Reader) res" where
  "readQuote rn r s =
     bnd (rn r s) (\<lambda>(obj, r1) s1.
       (case obj of
          None \<Rightarrow> Throw (Error ''expected stuff after quote'') s1
        | Some ob \<Rightarrow>
            (let (q, s2) = intern ''quote'' s1;
                 (c1, s3) = cons ob nil s2;
                 (c2, s4) = cons q c1 s3
             in Ok (c2, r1) s4)))"

definition readUnquote :: "readfn \<Rightarrow> Reader \<Rightarrow> state \<Rightarrow> (addr \<times> Reader) res" where
  "readUnquote rn r s =
     bnd (rn r s) (\<lambda>(obj, r1) s1.
       (case obj of
          None \<Rightarrow> Throw (Error ''expected stuff after unquote'') s1
        | Some ob \<Rightarrow>
            (let (q, s2) = intern ''unquote'' s1;
                 (c1, s3) = cons ob nil s2;
                 (c2, s4) = cons q c1 s3
             in Ok (c2, r1) s4)))"

fun readList_loop ::
  "nat \<Rightarrow> readfn \<Rightarrow> char \<Rightarrow> addr \<Rightarrow> addr \<Rightarrow> Reader \<Rightarrow> state \<Rightarrow> (addr \<times> Reader) res" where
  "readList_loop 0 rn delim head tail r s = Timeout"
| "readList_loop (Suc k) rn delim head tail r s =
     (let r1 = skipWhitespace r
      in if peek r1 0 = Some delim then Ok (head, r1) s
         else
          (let dotted = (peek r1 0 = Some CHR ''.'');
               r2 = (if dotted then skipWhitespace (advance r1) else r1)
           in bnd (rn r2 s) (\<lambda>(item, r3) s1.
                (case item of
                   None \<Rightarrow> Throw (Error ''unexpected end of list'') s1
                 | Some it \<Rightarrow>
                     if dotted then Ok (head, r3) (setCdr tail it s1)
                     else (let (c, s2) = cons it nil s1; s3 = setCdr tail c s2
                           in readList_loop k rn delim head (cdr (heap s3 tail)) r3 s3)))))"

definition readList :: "nat \<Rightarrow> readfn \<Rightarrow> char \<Rightarrow> Reader \<Rightarrow> state \<Rightarrow> (addr \<times> Reader) res" where
  "readList k rn delim r s =
     (if peek r 0 = Some delim then Ok (nil, r) s
      else bnd (rn r s) (\<lambda>(obj, r1) s1.
        (case obj of
           None \<Rightarrow> Throw (Error ''unexpected end of list'') s1
         | Some ob \<Rightarrow>
             (let (head, s2) = cons ob nil s1 in readList_loop k rn delim head head r1 s2))))"

definition nonNull :: "(addr \<times> Reader) res \<Rightarrow> (addr option \<times> Reader) res" where
  "nonNull x = bnd x (\<lambda>(ob, r) s. Ok (Some ob, r) s)"

definition readNext_body :: "nat \<Rightarrow> readfn \<Rightarrow> Reader \<Rightarrow> state \<Rightarrow> (addr option \<times> Reader) res" where
  "readNext_body k rn r0 s =
     (let r = skipComments (skipWhitespace r0)
      in if atEof r then Ok (None, r) s
         else (case peek r 0 of
            None \<Rightarrow> Ok (None, r) s
          | Some c \<Rightarrow>
             if isDigit c then nonNull (readNumber r s)
             else if c = CHR ''('' then
               bnd (readList k rn (CHR '')'') (advance r) s) (\<lambda>(list, r1) s1.
               bnd (consume (CHR '')'') r1 s1) (\<lambda>r2 s2. Ok (Some list, r2) s2))
             else if c = CHR ''['' then
               bnd (readList k rn (CHR '']'') (advance r) s) (\<lambda>(list, r1) s1.
                 (let (l, s2) = intern ''list'' s1;
                      (result, s3) = cons l list s2
                  in bnd (consume (CHR '']'') r1 s3) (\<lambda>r2 s4. Ok (Some result, r2) s4)))
             else if c = CHR 0x27 then nonNull (readQuote rn (advance r) s)
             else if c = CHR '','' then nonNull (readUnquote rn (advance r) s)
             else if c = CHR 0x22 then nonNull (readString (advance r) s)
             else if c = CHR ''#'' then
               bnd (consume (CHR ''#'') r s) (\<lambda>r1 s1.
               bnd (consume (CHR ''-'') r1 s1) (\<lambda>r2 s2.
               bnd (rn r2 s2) (\<lambda>(thrownAway, r3) s3. rn r3 s3)))
             else nonNull (readSymbol r s)))"

primrec readNext :: "nat \<Rightarrow> Reader \<Rightarrow> state \<Rightarrow> (addr option \<times> Reader) res" where
  "readNext 0 = (\<lambda>r s. Timeout)"
| "readNext (Suc n) = readNext_body n (readNext n)"

text \<open>\<open>new Reader(source)\<close> and \<open>read()\<close> (which prints the place of an error and rethrows).\<close>

definition newReader :: "string \<Rightarrow> Reader" where
  "newReader src = \<lparr>source = src, pos = 0\<rparr>"

definition read :: "nat \<Rightarrow> Reader \<Rightarrow> state \<Rightarrow> (addr option \<times> Reader) res" where
  "read n r s = readNext n r s"

section \<open>Printing\<close>

text \<open>
  \<open>fmt\<close> is the plain rendering that \<open>string\<close> and \<open>io/print\<close> use; \<open>fmt_loop\<close> is its
  loop over a list, which shows six elements at most. \<open>primName\<close> is the JavaScript
  function name of a primitive (the arrow functions that \<open>createNumericPrim\<close> returns
  have none). Numbers are rendered as integers in decimal.
\<close>

fun showNat :: "nat \<Rightarrow> string" where
  "showNat n =
     (if n < 10 then [''0123456789'' ! n] else showNat (n div 10) @ [''0123456789'' ! (n mod 10)])"

definition showInt :: "int \<Rightarrow> string" where
  "showInt i = (if i < 0 then ''-'' @ showNat (nat (- i)) else showNat (nat i))"

fun showNumber :: "number \<Rightarrow> string" where
  "showNumber (IntNum i) = showInt i"
| "showNumber NaN = ''NaN''"

fun primName :: "prim \<Rightarrow> string" where
  "primName PrimFn = ''primFn''"
| "primName PrimDefine = ''primDefine''"
| "primName PrimDefn = ''primDefn''"
| "primName PrimDefmacro = ''primDefmacro''"
| "primName PrimQuote = ''primQuote''"
| "primName PrimUnquote = ''primUnquote''"
| "primName PrimList = ''primList''"
| "primName PrimCons = ''primCons''"
| "primName PrimEnv = ''env''"
| "primName PrimMacex = ''primMacex''"
| "primName PrimImport = ''primImport''"
| "primName PrimIf = ''primIf''"
| "primName PrimError = ''primError''"
| "primName PrimString = ''primString''"
| "primName PrimSlurp = ''primSlurp''"
| "primName PrimPrintln = ''primPrintln''"
| "primName PrimReaderDebug = ''primReaderDebug''"
| "primName PrimEqual = ''primEqual''"
| "primName (PrimNumeric f) = ''''"

fun fmt :: "nat \<Rightarrow> (addr \<Rightarrow> Obj) \<Rightarrow> addr \<Rightarrow> string option"
  and fmt_loop :: "nat \<Rightarrow> (addr \<Rightarrow> Obj) \<Rightarrow> addr \<Rightarrow> nat \<Rightarrow> string option" where
  "fmt 0 h obj = None"
| "fmt (Suc k) h obj =
     (case h obj of
        ObjEnv vars up \<Rightarrow> map_option (\<lambda>x. ''('' @ x @ '')'') (fmt_loop k h vars 6)
      | ObjPair a d \<Rightarrow> map_option (\<lambda>x. ''('' @ x @ '')'') (fmt_loop k h obj 6)
      | ObjSymbol nm \<Rightarrow> Some nm
      | ObjNil \<Rightarrow> Some ''nil''
      | ObjNum v \<Rightarrow> Some (showNumber v)
      | ObjNativeFn p \<Rightarrow> Some (''<native function '' @ primName p @ ''>'')
      | ObjFn ps bd e \<Rightarrow> Some ''<function>''
      | ObjMacro ps bd e \<Rightarrow> Some ''<macro>''
      | ObjString v \<Rightarrow> Some v)"
| "fmt_loop 0 h obj left = None"
| "fmt_loop (Suc k) h obj left =
     (case h obj of
        ObjPair a d \<Rightarrow>
          if left = 0 then Some ''...''
          else (case fmt k h a of
                  None \<Rightarrow> None
                | Some x \<Rightarrow>
                   (case h d of
                      ObjNil \<Rightarrow> Some x
                    | ObjPair a' d' \<Rightarrow> map_option (\<lambda>y. x @ '' '' @ y) (fmt_loop k h d (left - 1))
                    | _ \<Rightarrow> map_option (\<lambda>y. x @ '' . '' @ y) (fmt k h d)))
      | _ \<Rightarrow> Some [])"

section \<open>Primitives\<close>

definition primQuote :: "nat \<Rightarrow> evalfn \<Rightarrow> addr \<Rightarrow> addr \<Rightarrow> state \<Rightarrow> addr res" where
  "primQuote k ev env args s =
     (case heap s args of
        ObjPair a d \<Rightarrow> evaluateUnquotes k ev env a s
      | _ \<Rightarrow> Throw (Error ''malformed quote'') s)"

text \<open>In \<open>primUnquote\<close> and \<open>primMacex\<close> the cast \<open>(args as ObjPair)\<close> follows
  \<open>checkArity(args, 1)\<close>, after which \<open>args\<close> is a Pair.\<close>

definition primUnquote :: "nat \<Rightarrow> evalfn \<Rightarrow> addr \<Rightarrow> addr \<Rightarrow> state \<Rightarrow> addr res" where
  "primUnquote k ev env args s =
     bnd (checkArity k args 1 1 s) (\<lambda>_ s1. ev env (car (heap s1 args)) s1)"

definition primList :: "nat \<Rightarrow> evalfn \<Rightarrow> addr \<Rightarrow> addr \<Rightarrow> state \<Rightarrow> addr res" where
  "primList k ev env args s =
     bnd (checkArity k args 1 (-1) s) (\<lambda>_ s1. evaluateList k ev env args s1)"

definition primDefine :: "nat \<Rightarrow> evalfn \<Rightarrow> addr \<Rightarrow> addr \<Rightarrow> state \<Rightarrow> addr res" where
  "primDefine k ev env args s =
     bnd (checkArity k args 2 2 s) (\<lambda>_ s1.
       (case heap s1 args of
          ObjPair sy rest \<Rightarrow>
            if typeOf (heap s1 sy) \<noteq> TSymbol then Throw (Error ''malformed define'') s1
            else (case heap s1 rest of
                    ObjPair form d \<Rightarrow>
                      bnd (ev env form s1) (\<lambda>val s2. Ok val (addVariable env sy val s2))
                  | _ \<Rightarrow> Throw (Error ''malformed define'') s1)
        | _ \<Rightarrow> Throw (Error ''malformed define'') s1))"

definition checkParam :: "addr \<Rightarrow> unit \<Rightarrow> state \<Rightarrow> unit res" where
  "checkParam arg u s =
     (if typeOf (heap s arg) \<noteq> TSymbol then Throw (Error ''parameter must be a symbol'') s
      else Ok () s)"

definition primFn :: "nat \<Rightarrow> addr \<Rightarrow> addr \<Rightarrow> state \<Rightarrow> addr res" where
  "primFn k env args s =
     bnd (checkArity k args 2 (-1) s) (\<lambda>_ s1.
       (case heap s1 args of
          ObjPair ps rest \<Rightarrow>
            if \<not> isList (heap s1) args \<or> typeOf (heap s1 rest) \<noteq> TPair
            then Throw (Error ''malformed lambda'') s1
            else bnd (forEach k ps checkParam () s1) (\<lambda>_ s2.
                   (let (f, s3) = alloc (ObjFn ps (cdr (heap s2 args)) env) s2 in Ok f s3))
        | _ \<Rightarrow> Throw (Error ''malformed lambda'') s1))"

definition primDefn :: "nat \<Rightarrow> addr \<Rightarrow> addr \<Rightarrow> state \<Rightarrow> addr res" where
  "primDefn k env args s =
     bnd (checkArity k args 3 (-1) s) (\<lambda>_ s1.
       (case heap s1 args of
          ObjPair sy rest \<Rightarrow>
            if typeOf (heap s1 sy) \<noteq> TSymbol \<or> typeOf (heap s1 rest) \<noteq> TPair
            then Throw (Error ''malformed defn'') s1
            else bnd (primFn k env rest s1) (\<lambda>f s2. Ok f (addVariable env sy f s2))
        | _ \<Rightarrow> Throw (Error ''malformed defn'') s1))"

definition primDefmacro :: "nat \<Rightarrow> addr \<Rightarrow> addr \<Rightarrow> state \<Rightarrow> addr res" where
  "primDefmacro k env args s =
     (case heap s args of
        ObjPair sy rest \<Rightarrow>
          if typeOf (heap s sy) \<noteq> TSymbol then Throw (Error ''malformed defmacro'') s
          else (case heap s rest of
                  ObjPair ps bd \<Rightarrow>
                    bnd (forEach k ps checkParam () s) (\<lambda>_ s1.
                      (let (m, s2) = alloc (ObjMacro ps (cdr (heap s1 rest)) env) s1
                       in Ok m (addVariable env sy m s2)))
                | _ \<Rightarrow> Throw (Error ''malformed defmacro'') s)
      | _ \<Rightarrow> Throw (Error ''malformed defmacro'') s)"

definition boolObj :: "bool \<Rightarrow> addr" where
  "boolObj b = (if b then trueSym else nil)"

definition primEqual :: "nat \<Rightarrow> evalfn \<Rightarrow> addr \<Rightarrow> addr \<Rightarrow> state \<Rightarrow> addr res" where
  "primEqual k ev env args s =
     bnd (checkArity k args 2 2 s) (\<lambda>_ s1.
     bnd (evalArg k ev env args 0 None s1) (\<lambda>a s2.
     bnd (evalArg k ev env args 1 None s2) (\<lambda>b s3.
       (case equal k (heap s3) a b of
          None \<Rightarrow> Timeout
        | Some r \<Rightarrow> Ok (boolObj r) s3))))"

text \<open>
  The superseded generation of \<open>primEqual\<close> (the second copy of the module in the
  source): a \<open>forEach\<close> over the unevaluated arguments whose callback keeps the first
  argument in \<open>prev\<close> and compares every later one with it by reference.
\<close>

definition primEqual_old_step :: "addr \<Rightarrow> addr option \<times> bool \<Rightarrow> state \<Rightarrow> (addr option \<times> bool) res" where
  "primEqual_old_step obj acc s =
     (case acc of
        (None, eq) \<Rightarrow> Ok (Some obj, eq) s
      | (Some prev, eq) \<Rightarrow> if \<not> eq then Ok (Some prev, eq) s else Ok (Some prev, obj = prev) s)"

definition primEqual_old :: "nat \<Rightarrow> addr \<Rightarrow> addr \<Rightarrow> state \<Rightarrow> addr res" where
  "primEqual_old k env args s =
     bnd (forEach k args primEqual_old_step (None, True) s) (\<lambda>(prev, eq) s1. Ok (boolObj eq) s1)"

definition primSlurp :: "nat \<Rightarrow> evalfn \<Rightarrow> addr \<Rightarrow> addr \<Rightarrow> state \<Rightarrow> addr res" where
  "primSlurp k ev env args s =
     bnd (checkArity k args 1 1 s) (\<lambda>_ s1.
     bnd (evalArg k ev env args 0 (Some TString) s1) (\<lambda>p s2.
       (case heap s2 p of
          ObjString path \<Rightarrow>
            (case files s2 path of
               None \<Rightarrow> Throw (Unmodelled ''readTextFileSync'') s2
             | Some txt \<Rightarrow> (let (str, s3) = alloc (ObjString txt) s2 in Ok str s3))
        | _ \<Rightarrow> Throw (typeError TString (typeOf (heap s2 p))) s2)))"

definition primCons :: "nat \<Rightarrow> evalfn \<Rightarrow> addr \<Rightarrow> addr \<Rightarrow> state \<Rightarrow> addr res" where
  "primCons k ev env args s =
     bnd (checkArity k args 2 2 s) (\<lambda>_ s1.
     bnd (evaluateList k ev env args s1) (\<lambda>list s2.
       (case heap s2 list of
          ObjPair a d \<Rightarrow> Ok list (setCdr list (car (heap s2 d)) s2)
        | _ \<Rightarrow> Ok nil s2)))"

definition primReaderDebug :: "nat \<Rightarrow> addr \<Rightarrow> state \<Rightarrow> addr res" where
  "primReaderDebug k env s =
     (let (sy, s1) = intern ''reader-debug'' s
      in (case find' k (heap s1) env sy of
            None \<Rightarrow> Timeout
          | Some debug \<Rightarrow>
              bnd (setVariable k env sy (if debug = Some trueSym then nil else trueSym) s1)
                (\<lambda>_ s2. Ok nil s2)))"

definition primMacex :: "nat \<Rightarrow> evalfn \<Rightarrow> addr \<Rightarrow> addr \<Rightarrow> state \<Rightarrow> addr res" where
  "primMacex k ev env args s =
     bnd (checkArity k args 1 1 s) (\<lambda>_ s1. macroExpand k ev env (car (heap s1 args)) s1)"

definition primError :: "nat \<Rightarrow> evalfn \<Rightarrow> addr \<Rightarrow> addr \<Rightarrow> state \<Rightarrow> addr res" where
  "primError k ev env args s =
     bnd (checkArity k args 1 1 s) (\<lambda>_ s1.
     bnd (evalArg k ev env args 0 (Some TString) s1) (\<lambda>msg s2.
       (case heap s2 msg of
          ObjString m \<Rightarrow> Throw (Error m) s2
        | _ \<Rightarrow> Throw (typeError TString (typeOf (heap s2 msg))) s2)))"

definition primIf :: "nat \<Rightarrow> evalfn \<Rightarrow> addr \<Rightarrow> addr \<Rightarrow> state \<Rightarrow> addr res" where
  "primIf k ev env args s =
     bnd (checkArity k args 2 3 s) (\<lambda>_ s1.
     bnd (evalArg k ev env args 0 None s1) (\<lambda>cond s2.
     bnd (getArg k args 1 None s2) (\<lambda>ifExpr s3.
     bnd (getArg k args 2 None s3) (\<lambda>elseExpr s4.
       if cond = trueSym then ev env ifExpr s4 else ev env elseExpr s4))))"

definition primString_step :: "nat \<Rightarrow> evalfn \<Rightarrow> addr \<Rightarrow> addr \<Rightarrow> string list \<Rightarrow> state \<Rightarrow> string list res" where
  "primString_step k ev env arg strings s =
     bnd (ev env arg s) (\<lambda>earg s1.
       (case fmt k (heap s1) earg of
          None \<Rightarrow> Timeout
        | Some x \<Rightarrow> Ok (strings @ [x]) s1))"

definition primString :: "nat \<Rightarrow> evalfn \<Rightarrow> addr \<Rightarrow> addr \<Rightarrow> state \<Rightarrow> addr res" where
  "primString k ev env args s =
     bnd (checkArity k args 1 (-1) s) (\<lambda>_ s1.
     bnd (forEach k args (primString_step k ev env) [] s1) (\<lambda>strings s2.
       if strings = [] then Ok nil s2
       else (let (str, s3) = alloc (ObjString (concat strings)) s2 in Ok str s3)))"

text \<open>\<open>io/print\<close>: what it writes is not modelled, but \<open>fmt\<close> still has to return.\<close>

definition primPrintln_step :: "nat \<Rightarrow> addr \<Rightarrow> unit \<Rightarrow> state \<Rightarrow> unit res" where
  "primPrintln_step k arg u s = (case fmt k (heap s) arg of None \<Rightarrow> Timeout | Some x \<Rightarrow> Ok () s)"

definition primPrintln :: "nat \<Rightarrow> evalfn \<Rightarrow> addr \<Rightarrow> addr \<Rightarrow> state \<Rightarrow> addr res" where
  "primPrintln k ev env args s =
     (case heap s args of
        ObjPair a d \<Rightarrow>
          bnd (evaluateList k ev env args s) (\<lambda>evaledArgs s1.
            (case heap s1 evaledArgs of
               ObjPair a' d' \<Rightarrow>
                 bnd (forEach k evaledArgs (primPrintln_step k) () s1) (\<lambda>_ s2. Ok nil s2)
             | _ \<Rightarrow> Ok nil s1))
      | _ \<Rightarrow>
          bnd (ev env args s) (\<lambda>v s1.
          bnd (primPrintln_step k v () s1) (\<lambda>_ s2. Ok nil s2)))"

text \<open>
  \<open>createNumericPrim(fn)\<close>. \<open>numericFn\<close> is the JavaScript operator on the payloads: \<open>NaN\<close>
  when an operand is \<open>NaN\<close>, and for \<open>0/0\<close>; the exact integer otherwise, when there is
  one within \<open>2^53\<close>. For the other results (a fraction, an infinity, a rounded integer)
  the model stops with \<open>Unmodelled\<close>.
\<close>

fun numericFn :: "numop \<Rightarrow> number \<Rightarrow> number \<Rightarrow> number option" where
  "numericFn Plus (IntNum a) (IntNum b) = exact (a + b)"
| "numericFn Minus (IntNum a) (IntNum b) = exact (a - b)"
| "numericFn Times (IntNum a) (IntNum b) = exact (a * b)"
| "numericFn Divide (IntNum a) (IntNum b) =
     (if b = 0 then (if a = 0 then Some NaN else None)
      else if b dvd a then exact (a div b) else None)"
| "numericFn f NaN y = Some NaN"
| "numericFn f x NaN = Some NaN"

definition createNumericPrim :: "numop \<Rightarrow> nat \<Rightarrow> evalfn \<Rightarrow> addr \<Rightarrow> addr \<Rightarrow> state \<Rightarrow> addr res" where
  "createNumericPrim f k ev env args s =
     bnd (checkArity k args 2 2 s) (\<lambda>_ s1.
     bnd (evalArg k ev env args 0 (Some TNum) s1) (\<lambda>a s2.
     bnd (evalArg k ev env args 1 (Some TNum) s2) (\<lambda>b s3.
       (case (heap s3 a, heap s3 b) of
          (ObjNum x, ObjNum y) \<Rightarrow>
            (case numericFn f x y of
               None \<Rightarrow> Throw (Unmodelled ''number'') s3
             | Some z \<Rightarrow> (let (n, s4) = alloc (ObjNum z) s3 in Ok n s4))
        | _ \<Rightarrow> Throw (typeError TNum (typeOf (heap s3 a))) s3))))"

section \<open>The default environment and the read-eval loops\<close>

text \<open>The loop that \<open>createDefaultEnv\<close>, \<open>primImport\<close> and the file mode of the main
  program share: read a form, stop at \<open>null\<close>, evaluate it.\<close>

fun evalAll :: "nat \<Rightarrow> evalfn \<Rightarrow> addr \<Rightarrow> Reader \<Rightarrow> state \<Rightarrow> unit res" where
  "evalAll 0 ev env r s = Timeout"
| "evalAll (Suc k) ev env r s =
     (if atEof r then Ok () s
      else bnd (read k r s) (\<lambda>(next, r1) s1.
        (case next of
           None \<Rightarrow> Ok () s1
         | Some form \<Rightarrow> bnd (ev env form s1) (\<lambda>v s2. evalAll k ev env r1 s2))))"

definition primitives :: "(string \<times> prim) list" where
  "primitives =
     [(''fn'', PrimFn), (''define'', PrimDefine), (''defn'', PrimDefn),
      (''defmacro'', PrimDefmacro), (''quote'', PrimQuote), (''unquote'', PrimUnquote),
      (''list'', PrimList), (''cons'', PrimCons), (''env'', PrimEnv), (''macex'', PrimMacex),
      (''import'', PrimImport), (''if'', PrimIf), (''error'', PrimError),
      (''string'', PrimString), (''io/slurp'', PrimSlurp), (''io/print'', PrimPrintln),
      (''reader/debug'', PrimReaderDebug), (''='', PrimEqual),
      (''+'', PrimNumeric Plus), (''-'', PrimNumeric Minus), (''*'', PrimNumeric Times),
      (''/'', PrimNumeric Divide)]"

definition addPrimitive :: "addr \<Rightarrow> string \<times> prim \<Rightarrow> state \<Rightarrow> state" where
  "addPrimitive env np s =
     (let (sy, s1) = intern (fst np) s;
          (f, s2) = alloc (ObjNativeFn (snd np)) s1
      in addVariable env sy f s2)"

text \<open>
  \<open>createDefaultEnv\<close> ends by reading and evaluating the prelude \<open>core.elysp\<close>, a file
  that is not among the sources: it is whatever \<open>files\<close> holds under that name.
\<close>

definition createDefaultEnv :: "nat \<Rightarrow> evalfn \<Rightarrow> state \<Rightarrow> addr res" where
  "createDefaultEnv k ev s =
     (let (env, s1) = alloc (ObjEnv nil nil) s;
          (n, s2) = intern ''nil'' s1;
          s3 = addVariable env n nil s2;
          s4 = addVariable env trueSym trueSym s3;
          s5 = fold (addPrimitive env) primitives s4
      in (case files s5 ''core.elysp'' of
            None \<Rightarrow> Throw (Unmodelled ''readTextFileSync'') s5
          | Some coreSrc \<Rightarrow>
              bnd (evalAll k ev env (newReader coreSrc) s5) (\<lambda>_ s6. Ok env s6)))"

definition primImport_merge :: "addr \<Rightarrow> addr \<Rightarrow> unit \<Rightarrow> state \<Rightarrow> unit res" where
  "primImport_merge env obj u s =
     (case heap s obj of
        ObjPair a d \<Rightarrow>
          if typeOf (heap s a) = TSymbol then Ok () (addVariable env a d s) else Ok () s
      | _ \<Rightarrow> Ok () s)"

definition primImport :: "nat \<Rightarrow> evalfn \<Rightarrow> addr \<Rightarrow> addr \<Rightarrow> state \<Rightarrow> addr res" where
  "primImport k ev env args s =
     bnd (checkArity k args 1 1 s) (\<lambda>_ s1.
     bnd (evalArg k ev env args 0 (Some TString) s1) (\<lambda>p s2.
       (case heap s2 p of
          ObjString path \<Rightarrow>
            (case files s2 path of
               None \<Rightarrow> Throw (Unmodelled ''readTextFileSync'') s2
             | Some fileContent \<Rightarrow>
                 bnd (createDefaultEnv k ev s2) (\<lambda>moduleGlobalEnv s3.
                   (let (moduleEnv, s4) = alloc (ObjEnv nil moduleGlobalEnv) s3
                    in bnd (evalAll k ev moduleEnv (newReader fileContent) s4) (\<lambda>_ s5.
                       (case heap s5 moduleEnv of
                          ObjEnv vars up \<Rightarrow>
                            bnd (forEach k vars (primImport_merge env) () s5)
                              (\<lambda>_ s6. Ok moduleEnv s6)
                        | _ \<Rightarrow> Ok moduleEnv s5)))))
        | _ \<Rightarrow> Throw (typeError TString (typeOf (heap s2 p))) s2)))"

text \<open>\<open>fn.fn(env, args)\<close>: the call of a native function.\<close>

fun callNative :: "prim \<Rightarrow> nat \<Rightarrow> evalfn \<Rightarrow> addr \<Rightarrow> addr \<Rightarrow> state \<Rightarrow> addr res" where
  "callNative PrimFn k ev env args s = primFn k env args s"
| "callNative PrimDefine k ev env args s = primDefine k ev env args s"
| "callNative PrimDefn k ev env args s = primDefn k env args s"
| "callNative PrimDefmacro k ev env args s = primDefmacro k env args s"
| "callNative PrimQuote k ev env args s = primQuote k ev env args s"
| "callNative PrimUnquote k ev env args s = primUnquote k ev env args s"
| "callNative PrimList k ev env args s = primList k ev env args s"
| "callNative PrimCons k ev env args s = primCons k ev env args s"
| "callNative PrimEnv k ev env args s = Ok env s"
| "callNative PrimMacex k ev env args s = primMacex k ev env args s"
| "callNative PrimImport k ev env args s = primImport k ev env args s"
| "callNative PrimIf k ev env args s = primIf k ev env args s"
| "callNative PrimError k ev env args s = primError k ev env args s"
| "callNative PrimString k ev env args s = primString k ev env args s"
| "callNative PrimSlurp k ev env args s = primSlurp k ev env args s"
| "callNative PrimPrintln k ev env args s = primPrintln k ev env args s"
| "callNative PrimReaderDebug k ev env args s = primReaderDebug k env s"
| "callNative PrimEqual k ev env args s = primEqual k ev env args s"
| "callNative (PrimNumeric f) k ev env args s = createNumericPrim f k ev env args s"

text \<open>\<open>apply\<close>. A Pair applied to a number is indexed by it. The message of the last
  case is built from \<open>repr(fn)\<close>, which returns nothing.\<close>

fun apply_loop :: "nat \<Rightarrow> (addr \<Rightarrow> Obj) \<Rightarrow> addr \<Rightarrow> nat \<Rightarrow> number \<Rightarrow> addr option" where
  "apply_loop 0 h obj currentIndex index = None"
| "apply_loop (Suc k) h obj currentIndex index =
     (case h obj of
        ObjPair a d \<Rightarrow>
          if strictEq (IntNum (int currentIndex)) index then Some a
          else apply_loop k h d (currentIndex + 1) index
      | _ \<Rightarrow> Some nil)"

definition apply' :: "nat \<Rightarrow> evalfn \<Rightarrow> addr \<Rightarrow> addr \<Rightarrow> addr \<Rightarrow> state \<Rightarrow> addr res" where
  "apply' k ev env f args s =
     (case heap s f of
        ObjNativeFn p \<Rightarrow> callNative p k ev env args s
      | ObjFn ps bd fenv \<Rightarrow>
          bnd (evaluateList k ev env args s) (\<lambda>eargs s1.
          bnd (pushEnv k fenv ps eargs s1) (\<lambda>newEnv s2.
            forEach k bd (\<lambda>form result. ev newEnv form) nil s2))
      | ObjPair a d \<Rightarrow>
          bnd (checkArity k args 1 1 s) (\<lambda>_ s1.
          bnd (evalArg k ev env args 0 (Some TNum) s1) (\<lambda>index s2.
            (case heap s2 index of
               ObjNum i \<Rightarrow>
                 (case apply_loop k (heap s2) f 0 i of
                    None \<Rightarrow> Timeout
                  | Some r \<Rightarrow> Ok r s2)
             | _ \<Rightarrow> Throw (typeError TNum (typeOf (heap s2 index))) s2)))
      | _ \<Rightarrow> Throw (Error ''cannot apply undefined'') s)"

definition evaluate_body :: "nat \<Rightarrow> evalfn \<Rightarrow> addr \<Rightarrow> addr \<Rightarrow> state \<Rightarrow> addr res" where
  "evaluate_body k ev env val s =
     (case heap s val of
        ObjSymbol nm \<Rightarrow>
          (case find' k (heap s) env val of
             None \<Rightarrow> Timeout
           | Some None \<Rightarrow> Throw (Error (''unknown symbol: '' @ nm)) s
           | Some (Some result) \<Rightarrow> Ok result s)
      | ObjPair a d \<Rightarrow>
          bnd (macroExpand k ev env val s) (\<lambda>expanded s1.
            if expanded \<noteq> val then ev env expanded s1
            else bnd (ev env a s1) (\<lambda>f s2. apply' k ev env f (cdr (heap s2 val)) s2))
      | _ \<Rightarrow> Ok val s)"

primrec evaluate :: "nat \<Rightarrow> addr \<Rightarrow> addr \<Rightarrow> state \<Rightarrow> addr res" where
  "evaluate 0 = (\<lambda>env val s. Timeout)"
| "evaluate (Suc n) = evaluate_body n (evaluate n)"

text \<open>
  The main program: the module's own \<open>createDefaultEnv()\<close>, and one turn of the
  interactive loop, which reads the first form of a line and evaluates it (\<open>None\<close> when
  the line holds no form and the loop ends).
\<close>

definition defaultEnv :: "nat \<Rightarrow> (string \<Rightarrow> string option) \<Rightarrow> addr res" where
  "defaultEnv n fs = createDefaultEnv n (evaluate n) (initState fs)"

definition replLine :: "nat \<Rightarrow> addr \<Rightarrow> string \<Rightarrow> state \<Rightarrow> addr option res" where
  "replLine n env line s =
     bnd (read n (newReader line) s) (\<lambda>(next, r) s1.
       (case next of
          None \<Rightarrow> Ok None s1
        | Some form \<Rightarrow> bnd (evaluate n env form s1) (\<lambda>v s2. Ok (Some v) s2)))"

section \<open>Lists and finite values in the store\<close>

text \<open>
  The vocabulary of the statements about lists: \<open>spine h p cs t\<close> says that, in the store
  \<open>h\<close>, the \<open>cdr\<close> chain from \<open>p\<close> runs through exactly the Pairs \<open>cs\<close> and ends in \<open>t\<close>,
  which is not a Pair. A proper list ends in \<open>nil\<close>; a dotted one in some other object.
  \<open>elems h cs\<close> are the elements, the \<open>car\<close>s of these Pairs.
  \<open>finiteObj n h a\<close> says that every path of \<open>car\<close>s and \<open>cdr\<close>s from \<open>a\<close> leaves the Pairs in
  fewer than \<open>n\<close> steps: the value at \<open>a\<close> is a finite tree of Pairs, of depth below \<open>n\<close>.
\<close>

fun spine :: "(addr \<Rightarrow> Obj) \<Rightarrow> addr \<Rightarrow> addr list \<Rightarrow> addr \<Rightarrow> bool" where
  "spine h p [] t = (p = t \<and> typeOf (h p) \<noteq> TPair)"
| "spine h p (c # cs) t = (p = c \<and> (case h c of ObjPair a d \<Rightarrow> spine h d cs t | _ \<Rightarrow> False))"

definition elems :: "(addr \<Rightarrow> Obj) \<Rightarrow> addr list \<Rightarrow> addr list" where
  "elems h cs = map (\<lambda>c. car (h c)) cs"

fun finiteObj :: "nat \<Rightarrow> (addr \<Rightarrow> Obj) \<Rightarrow> addr \<Rightarrow> bool" where
  "finiteObj 0 h a = False"
| "finiteObj (Suc n) h a = (case h a of ObjPair x y \<Rightarrow> finiteObj n h x \<and> finiteObj n h y | _ \<Rightarrow> True)"


definition isBind :: "(addr \<Rightarrow> Obj) \<Rightarrow> addr \<Rightarrow> addr \<Rightarrow> bool" where
  "isBind h sy b = (case h b of ObjPair key v \<Rightarrow> key = sy | _ \<Rightarrow> False)"

fun frames :: "(addr \<Rightarrow> Obj) \<Rightarrow> addr \<Rightarrow> (addr list \<times> addr) list \<Rightarrow> bool" where
  "frames h e [] = (typeOf (h e) \<noteq> TEnv)"
| "frames h e ((cs, t) # fs) =
     (case h e of ObjEnv vars up \<Rightarrow> spine h vars cs t \<and> frames h up fs | _ \<Rightarrow> False)"

definition bindings :: "(addr \<Rightarrow> Obj) \<Rightarrow> (addr list \<times> addr) list \<Rightarrow> addr list" where
  "bindings h fs = concat (map (\<lambda>(cs, t). elems h cs) fs)"

fun bindAll :: "(addr \<times> addr) list \<Rightarrow> addr \<Rightarrow> state \<Rightarrow> addr \<times> state" where
  "bindAll [] nv s = (nv, s)"
| "bindAll ((v, x) # r) nv s = (let (nv', s') = acons v x nv s in bindAll r nv' s')"

section \<open>The default environment in closed form\<close>

text \<open>
  What \<open>createDefaultEnv\<close> builds from the module's initial state, for a table \<open>ps\<close> of
  primitives: the environment is object 2, the bindings of \<open>nil\<close> and \<open>t\<close> take the
  objects 3 to 7, and the \<open>i\<close>-th primitive takes the four objects from \<open>8 + 4 * i\<close>: its
  Symbol, its native function, its binding, and the Pair that puts the binding in front
  of the older \<open>vars\<close>. (That \<open>createDefaultEnv\<close> does build this state is proved below.)
\<close>

definition baseCells :: "Obj list" where
  "baseCells = [ObjNil, ObjSymbol ''t'', ObjEnv 7 0, ObjSymbol ''nil'', ObjPair 3 0, ObjPair 4 0,
                ObjPair 1 1, ObjPair 6 5]"

definition primCell :: "(string \<times> prim) list \<Rightarrow> addr \<Rightarrow> Obj" where
  "primCell ps a =
     (let i = (a - 8) div 4; j = (a - 8) mod 4
      in if j = 0 then ObjSymbol (fst (ps ! i))
         else if j = 1 then ObjNativeFn (snd (ps ! i))
         else if j = 2 then ObjPair (a - 2) (a - 1)
         else ObjPair (a - 1) (a - 4))"

definition envHeap :: "(string \<times> prim) list \<Rightarrow> addr \<Rightarrow> Obj" where
  "envHeap ps a =
     (if a = 2 then ObjEnv (7 + 4 * length ps) 0
      else if a < 8 then baseCells ! a
      else if a < 8 + 4 * length ps then primCell ps a
      else ObjNil)"

definition envState :: "(string \<times> prim) list \<Rightarrow> (string \<Rightarrow> string option) \<Rightarrow> state" where
  "envState ps fs =
     \<lparr>heap = envHeap ps, top = 8 + 4 * length ps,
      symbols = rev (map (\<lambda>i. 8 + 4 * i) [0..<length ps]) @ [3, 1], files = fs\<rparr>"

text \<open>The files of the examples: the prelude is there and empty.\<close>

definition fs0 :: "string \<Rightarrow> string option" where
  "fs0 = (\<lambda>_. None)(''core.elysp'' := Some '''')"

definition defaultState :: state where
  "defaultState = envState primitives fs0"

section \<open>Example stores and programs\<close>

text \<open>The source lines of the examples. \<open>CHR 0x27\<close> is the quote character and \<open>CHR 0x22\<close> the
  double quote.\<close>

definition src_plus :: string where
  "src_plus = ''(+ 1 #- 2 3)''"

definition src_if3 :: string where
  "src_if3 = ''(if nil '' @ [CHR 0x22] @ ''yup'' @ [CHR 0x22] @ '' '' @ [CHR 0x22] @ ''nope''
               @ [CHR 0x22] @ '')''"

definition src_if2 :: string where
  "src_if2 = ''(if nil 1)''"

definition src_defmacro :: string where
  "src_defmacro = ''(defmacro double (x) '' @ [CHR 0x27] @ ''(quote (,x ,x)))''"

definition src_macex :: string where
  "src_macex = ''(macex (double 5))''"

definition src_dotted :: string where
  "src_dotted = [CHR 0x27] @ ''(1 . 2)''"

definition src_nan :: string where
  "src_nan = ''(= (/ 0 0) (/ 0 0))''"

text \<open>Objects for the statements about \<open>equal\<close>: Numbers, Strings, lists, functions, and two
  Numbers that hold \<open>NaN\<close>.\<close>

definition eqHeap :: "addr \<Rightarrow> Obj" where
  "eqHeap = (\<lambda>_. ObjNil)(2 := ObjNum (IntNum 1), 3 := ObjNum (IntNum 1), 4 := ObjPair 2 0,
      5 := ObjPair 3 0, 6 := ObjFn 0 0 0, 7 := ObjFn 0 0 0, 8 := ObjString ''a'',
      9 := ObjString ''a'', 10 := ObjNum (IntNum 2), 11 := ObjString ''b'', 12 := ObjPair 10 0,
      13 := ObjPair 2 5, 14 := ObjString ''1'', 15 := ObjPair 14 0, 16 := ObjNum NaN,
      17 := ObjNum NaN)"


text \<open>The line \<open>(= 1 1)\<close>, and the default state after the reader has read it: the form is
  at 96, its argument list at 98, and the two numerals are the two Number objects at 97
  and 99.\<close>

definition src_eq11 :: string where
  "src_eq11 = ''(= 1 1)''"

definition eq11State :: state where
  "eq11State = defaultState\<lparr>top := 101, heap := (heap defaultState)
      (97 := ObjNum (IntNum 1), 96 := ObjPair 76 98, 99 := ObjNum (IntNum 1),
       100 := ObjPair 99 0, 98 := ObjPair 97 100)\<rparr>"

text \<open>Two more \<open>if\<close> lines, with the conditions \<open>t\<close> and \<open>1\<close>, and the default state after
  the reader has read \<open>(if nil 1)\<close> and \<open>(if nil "yup" "nope")\<close>: in both the form is at 96
  and its argument list at 97; the Symbol \<open>nil\<close> is the object 3 of the default state.\<close>

definition src_ift :: string where
  "src_ift = ''(if t '' @ [CHR 0x22] @ ''yup'' @ [CHR 0x22] @ '' '' @ [CHR 0x22] @ ''nope''
               @ [CHR 0x22] @ '')''"

definition src_if1 :: string where
  "src_if1 = ''(if 1 '' @ [CHR 0x22] @ ''yup'' @ [CHR 0x22] @ '' '' @ [CHR 0x22] @ ''nope''
               @ [CHR 0x22] @ '')''"

definition if2State :: state where
  "if2State = defaultState\<lparr>top := 100, heap := (heap defaultState)
      (96 := ObjPair 52 97, 98 := ObjNum (IntNum 1), 99 := ObjPair 98 0,
       97 := ObjPair 3 99)\<rparr>"

definition if3State :: state where
  "if3State = defaultState\<lparr>top := 102, heap := (heap defaultState)
      (96 := ObjPair 52 97, 98 := ObjString ''yup'', 97 := ObjPair 3 99,
       100 := ObjString ''nope'', 101 := ObjPair 100 0, 99 := ObjPair 98 101)\<rparr>"

text \<open>A small store for the statements about \<open>pushEnv\<close>: the Symbols \<open>x\<close> and \<open>y\<close>, the
  Numbers 1 and 2, the parameter lists \<open>(x y)\<close> at 4 and \<open>(x x)\<close> at 11, the argument lists
  \<open>(1 . 2)\<close> at 8, \<open>(1 2)\<close> at 9 and \<open>(1)\<close> at 14, and an empty Environment at 13.\<close>

definition bindState :: state where
  "bindState = \<lparr>heap = (\<lambda>_. ObjNil)(1 := ObjSymbol ''t'', 2 := ObjSymbol ''x'',
      3 := ObjSymbol ''y'', 4 := ObjPair 2 5, 5 := ObjPair 3 0, 6 := ObjNum (IntNum 1),
      7 := ObjNum (IntNum 2), 8 := ObjPair 6 7, 9 := ObjPair 6 10, 10 := ObjPair 7 0,
      11 := ObjPair 2 12, 12 := ObjPair 2 0, 13 := ObjEnv 0 0, 14 := ObjPair 6 0),
    top = 15, symbols = [3, 2, 1], files = (\<lambda>_. None)\<rparr>"






definition doubleState :: state where
  "doubleState = defaultState\<lparr>symbols := 99 # 97 # symbols defaultState, top := 116,
     heap := (heap defaultState)
       (97 := ObjSymbol ''double'', 96 := ObjPair 20 98, 99 := ObjSymbol ''x'',
        100 := ObjPair 99 0, 98 := ObjPair 97 101, 103 := ObjPair 99 0,
        104 := ObjPair 28 103, 106 := ObjPair 99 0, 107 := ObjPair 28 106,
        108 := ObjPair 107 0, 105 := ObjPair 104 108, 109 := ObjPair 105 0,
        102 := ObjPair 24 109, 110 := ObjPair 102 0, 111 := ObjPair 24 110,
        112 := ObjPair 111 0, 101 := ObjPair 100 112, 113 := ObjMacro 100 112 2,
        114 := ObjPair 97 113, 115 := ObjPair 114 95, 2 := ObjEnv 115 0)\<rparr>"
section \<open>The default environment\<close>

text \<open>\<open>createDefaultEnv\<close> run on the initial state builds the closed form \<open>envState\<close>: each
  primitive in turn finds its name new in \<open>symbols\<close> and adds its four objects.\<close>

lemma bnd_simps: "bnd (Ok x s) f = f x s" "bnd (Throw e s) f = Throw e s" "bnd Timeout f = Timeout"
  by (simp_all add: bnd_def)

lemma primCell_append:
  "a < 8 + 4 * length ps \<Longrightarrow> 8 \<le> a \<Longrightarrow> primCell (ps @ [x]) a = primCell ps a"
proof -
  assume a: "a < 8 + 4 * length ps" "8 \<le> a"
  then have "(a - 8) div 4 < length ps" by simp
  then show ?thesis by (simp add: primCell_def nth_append Let_def)
qed

lemma envState_symbols_fresh:
  assumes "nm \<notin> set (map fst ps)" "nm \<noteq> ''nil''" "nm \<noteq> ''t''"
  shows "List.find (isSymbolNamed (heap (envState ps fs)) nm) (symbols (envState ps fs)) = None"
proof -
  have "\<not> isSymbolNamed (heap (envState ps fs)) nm a" if "a \<in> set (symbols (envState ps fs))" for a
  proof -
    from that consider i where "i < length ps" "a = 8 + 4 * i" | "a = 3" | "a = 1"
      by (auto simp: envState_def)
    then have "\<not> isSymbolNamed (envHeap ps) nm a"
    proof cases
      case 1
      then have "envHeap ps a = ObjSymbol (fst (ps ! i))"
        by (simp add: envHeap_def primCell_def)
      moreover have "fst (ps ! i) \<noteq> nm" using assms(1) 1(1) by (metis nth_map length_map nth_mem)
      ultimately show ?thesis by (simp add: isSymbolNamed_def)
    next
      case 2 then show ?thesis using assms by (simp add: envHeap_def baseCells_def isSymbolNamed_def)
    next
      case 3 then show ?thesis using assms by (simp add: envHeap_def baseCells_def isSymbolNamed_def)
    qed
    then show ?thesis by (simp add: envState_def)
  qed
  then show ?thesis by (simp add: find_None_iff)
qed


lemma intern_envState:
  assumes "nm \<notin> set (map fst ps)" "nm \<noteq> ''nil''" "nm \<noteq> ''t''"
  shows "intern nm (envState ps fs) =
      (8 + 4 * length ps, (envState ps fs)\<lparr>heap := (envHeap ps)(8 + 4 * length ps := ObjSymbol nm),
           top := Suc (8 + 4 * length ps),
           symbols := (8 + 4 * length ps) # symbols (envState ps fs)\<rparr>)"
proof -
  have t: "top (envState ps fs) = 8 + 4 * length ps" "heap (envState ps fs) = envHeap ps"
    by (simp_all add: envState_def)
  show ?thesis
    using envState_symbols_fresh[OF assms, of fs]
    by (simp add: intern_def alloc_def t)
qed

lemma divmod4: "j < 4 \<Longrightarrow> (4 * n + j) div (4::nat) = n" "j < 4 \<Longrightarrow> (4 * n + j) mod (4::nat) = j"
  by auto

lemma envHeap_step:
  "(envHeap ps)(8 + 4 * length ps := ObjSymbol nm, Suc (8 + 4 * length ps) := ObjNativeFn p,
        Suc (Suc (8 + 4 * length ps)) := ObjPair (8 + 4 * length ps) (Suc (8 + 4 * length ps)),
        Suc (Suc (Suc (8 + 4 * length ps))) := ObjPair (Suc (Suc (8 + 4 * length ps))) (7 + 4 * length ps),
        2 := ObjEnv (Suc (Suc (Suc (8 + 4 * length ps)))) 0) = envHeap (ps @ [(nm, p)])"
  (is "?l = ?r")
proof
  fix a
  let ?n = "length ps"
  let ?b = "8 + 4 * ?n"
  consider "a = 2" | "a \<noteq> 2" "a < 8" | "8 \<le> a" "a < ?b" | "a = ?b" | "a = Suc ?b"
    | "a = Suc (Suc ?b)" | "a = Suc (Suc (Suc ?b))" | "a \<ge> ?b + 4"
    by linarith
  then show "?l a = ?r a"
  proof cases
    case 1 then show ?thesis by (simp add: envHeap_def)
  next
    case 2 then show ?thesis by (simp add: envHeap_def)
  next
    case 3 then show ?thesis by (simp add: envHeap_def primCell_append)
  next
    case 4
    then have "(a - 8) div 4 = ?n" "(a - 8) mod 4 = 0" by simp_all
    with 4 show ?thesis by (simp add: envHeap_def primCell_def)
  next
    case 5
    then have "a - 8 = 4 * ?n + 1" by simp
    moreover have "(4 * ?n + 1) div 4 = ?n" "(4 * ?n + 1) mod 4 = 1" by (rule divmod4; simp)+
    ultimately have "(a - 8) div 4 = ?n" "(a - 8) mod 4 = 1" by (simp_all only:)
    with 5 show ?thesis by (simp add: envHeap_def primCell_def)
  next
    case 6
    then have "a - 8 = 4 * ?n + 2" by simp
    moreover have "(4 * ?n + 2) div 4 = ?n" "(4 * ?n + 2) mod 4 = 2" by (rule divmod4; simp)+
    ultimately have "(a - 8) div 4 = ?n" "(a - 8) mod 4 = 2" by (simp_all only:)
    with 6 show ?thesis by (simp add: envHeap_def primCell_def)
  next
    case 7
    then have "a - 8 = 4 * ?n + 3" by simp
    moreover have "(4 * ?n + 3) div 4 = ?n" "(4 * ?n + 3) mod 4 = 3" by (rule divmod4; simp)+
    ultimately have "(a - 8) div 4 = ?n" "(a - 8) mod 4 = 3" by (simp_all only:)
    with 7 show ?thesis by (simp add: envHeap_def primCell_def)
  next
    case 8 then show ?thesis by (simp add: envHeap_def)
  qed
qed


lemma addPrimitive_envState:
  assumes "nm \<notin> set (map fst ps)" "nm \<noteq> ''nil''" "nm \<noteq> ''t''"
  shows "addPrimitive 2 (nm, p) (envState ps fs) = envState (ps @ [(nm, p)]) fs"
proof -
  let ?b = "8 + 4 * length ps"
  have e: "envHeap ps 2 = ObjEnv (7 + 4 * length ps) 0" by (simp add: envHeap_def)
  have sy: "symbols (envState (ps @ [(nm, p)]) fs) = ?b # symbols (envState ps fs)"
    by (simp add: envState_def)
  have "addPrimitive 2 (nm, p) (envState ps fs) =
      (envState ps fs)\<lparr>heap := (envHeap ps)(?b := ObjSymbol nm, Suc ?b := ObjNativeFn p,
        Suc (Suc ?b) := ObjPair ?b (Suc ?b),
        Suc (Suc (Suc ?b)) := ObjPair (Suc (Suc ?b)) (7 + 4 * length ps),
        2 := ObjEnv (Suc (Suc (Suc ?b))) 0),
        top := Suc (Suc (Suc (Suc ?b))), symbols := ?b # symbols (envState ps fs)\<rparr>"
    by (simp add: addPrimitive_def intern_envState[OF assms] alloc_def addVariable_def acons_def
        cons_def e)
  also have "\<dots> = envState (ps @ [(nm, p)]) fs"
    unfolding envHeap_step sy[symmetric]
    by (simp add: envState_def)
  finally show ?thesis .
qed

lemma fold_addPrimitive:
  "distinct (map fst ps) \<Longrightarrow> ''nil'' \<notin> set (map fst ps) \<Longrightarrow> ''t'' \<notin> set (map fst ps) \<Longrightarrow>
   fold (addPrimitive 2) ps (envState [] fs) = envState ps fs"
proof (induction ps rule: rev_induct)
  case Nil
  show ?case by simp
next
  case (snoc x xs)
  obtain nm p where x: "x = (nm, p)" by (cases x)
  from snoc.prems x have "nm \<notin> set (map fst xs)" "nm \<noteq> ''nil''" "nm \<noteq> ''t''"
    by auto
  then have "addPrimitive 2 (nm, p) (envState xs fs) = envState (xs @ [(nm, p)]) fs"
    by (rule addPrimitive_envState)
  moreover from snoc have "fold (addPrimitive 2) xs (envState [] fs) = envState xs fs"
    by simp
  ultimately show ?case by (simp add: x)
qed

lemma primitives_names:
  "distinct (map fst primitives)" "''nil'' \<notin> set (map fst primitives)"
  "''t'' \<notin> set (map fst primitives)"
  by (simp_all add: primitives_def)

lemma envHeap_Nil:
  "(\<lambda>_. ObjNil)(0 := ObjNil, 1 := ObjSymbol ''t'', 2 := ObjEnv nil nil, 3 := ObjSymbol ''nil'',
      4 := ObjPair 3 nil, 5 := ObjPair 4 nil, 2 := ObjEnv 5 nil, 6 := ObjPair trueSym trueSym,
      7 := ObjPair 6 5, 2 := ObjEnv 7 nil) = envHeap []" (is "?l = ?r")
proof
  fix a :: nat
  consider "a = 0" | "a = 1" | "a = 2" | "a = 3" | "a = 4" | "a = 5" | "a = 6" | "a = 7" | "8 \<le> a"
    by linarith
  then show "?l a = ?r a"
    by cases (simp_all add: envHeap_def baseCells_def nil_def trueSym_def)
qed

lemma base_envState:
  "(let (env, s1) = alloc (ObjEnv nil nil) (initState fs);
        (n, s2) = intern ''nil'' s1;
        s3 = addVariable env n nil s2
    in (env, addVariable env trueSym trueSym s3)) = (2, envState [] fs)"
proof -
  have "(let (env, s1) = alloc (ObjEnv nil nil) (initState fs);
        (n, s2) = intern ''nil'' s1;
        s3 = addVariable env n nil s2
    in (env, addVariable env trueSym trueSym s3))
    = (2, \<lparr>heap = (\<lambda>_. ObjNil)(0 := ObjNil, 1 := ObjSymbol ''t'', 2 := ObjEnv nil nil,
      3 := ObjSymbol ''nil'', 4 := ObjPair 3 nil, 5 := ObjPair 4 nil, 2 := ObjEnv 5 nil,
      6 := ObjPair trueSym trueSym, 7 := ObjPair 6 5, 2 := ObjEnv 7 nil), top = 8,
      symbols = [3, 1], files = fs\<rparr>)"
    by (simp add: initState_def alloc_def intern_def isSymbolNamed_def addVariable_def acons_def
        cons_def nil_def trueSym_def)
  then show ?thesis by (simp only: envHeap_Nil envState_def, simp)
qed

lemma createDefaultEnv_unfold:
  "createDefaultEnv k ev s =
     (case (let (env, s1) = alloc (ObjEnv nil nil) s;
                (n, s2) = intern ''nil'' s1;
                s3 = addVariable env n nil s2
            in (env, addVariable env trueSym trueSym s3)) of
        (env, s4) \<Rightarrow>
          (let s5 = fold (addPrimitive env) primitives s4
           in (case files s5 ''core.elysp'' of
                 None \<Rightarrow> Throw (Unmodelled ''readTextFileSync'') s5
               | Some coreSrc \<Rightarrow>
                   bnd (evalAll k ev env (newReader coreSrc) s5) (\<lambda>_ s6. Ok env s6))))"
  by (simp add: createDefaultEnv_def Let_def split: prod.splits)

lemma createDefaultEnv_initState:
  "fs ''core.elysp'' = Some [] \<Longrightarrow>
   createDefaultEnv (Suc k) ev (initState fs) = Ok 2 (envState primitives fs)"
proof -
  assume f: "fs ''core.elysp'' = Some []"
  have a: "atEof (newReader [])" by (simp add: atEof_def newReader_def)
  have fl: "files (envState primitives fs) = fs" by (simp add: envState_def)
  show ?thesis
    unfolding createDefaultEnv_unfold base_envState
    by (simp add: fold_addPrimitive[OF primitives_names] fl f a bnd_def)
qed

section \<open>Evaluating concrete programs\<close>

text \<open>The rules the examples below are computed with: the definitions, the equations of
  the fuelled functions at a numeral, and the objects of the default state one by one.
  The congruence rules keep the simplifier out of branches and continuations that are not
  reached.\<close>

lemma bnd_weak_cong: "r = r' \<Longrightarrow> bnd r f = bnd r' f" by simp

lemmas evcongs = bnd_weak_cong if_weak_cong let_weak_cong prod.case_cong_weak option.case_cong_weak
  Obj.case_cong_weak res.case_cong_weak list.case_cong_weak

lemma length_primitives: "length primitives = 22" by (simp add: primitives_def)

lemma nth_primitives:
  "primitives ! 0 = (''fn'', PrimFn)" "primitives ! 1 = (''define'', PrimDefine)"
  "primitives ! Suc 0 = (''define'', PrimDefine)"
  "primitives ! 2 = (''defn'', PrimDefn)" "primitives ! 3 = (''defmacro'', PrimDefmacro)"
  "primitives ! 4 = (''quote'', PrimQuote)" "primitives ! 5 = (''unquote'', PrimUnquote)"
  "primitives ! 6 = (''list'', PrimList)" "primitives ! 7 = (''cons'', PrimCons)"
  "primitives ! 8 = (''env'', PrimEnv)" "primitives ! 9 = (''macex'', PrimMacex)"
  "primitives ! 10 = (''import'', PrimImport)" "primitives ! 11 = (''if'', PrimIf)"
  "primitives ! 12 = (''error'', PrimError)" "primitives ! 13 = (''string'', PrimString)"
  "primitives ! 14 = (''io/slurp'', PrimSlurp)" "primitives ! 15 = (''io/print'', PrimPrintln)"
  "primitives ! 16 = (''reader/debug'', PrimReaderDebug)" "primitives ! 17 = (''='', PrimEqual)"
  "primitives ! 18 = (''+'', PrimNumeric Plus)" "primitives ! 19 = (''-'', PrimNumeric Minus)"
  "primitives ! 20 = (''*'', PrimNumeric Times)" "primitives ! 21 = (''/'', PrimNumeric Divide)"
  by (simp_all add: primitives_def)

lemma defaultState_heap:
  "heap defaultState 0 = ObjNil"
  "heap defaultState 1 = ObjSymbol ''t''"
  "heap defaultState (Suc 0) = ObjSymbol ''t''"
  "heap defaultState 2 = ObjEnv 95 0"
  "heap defaultState 3 = ObjSymbol ''nil''"
  "heap defaultState 4 = ObjPair 3 0"
  "heap defaultState 5 = ObjPair 4 0"
  "heap defaultState 6 = ObjPair 1 1"
  "heap defaultState 7 = ObjPair 6 5"
  "heap defaultState 8 = ObjSymbol ''fn''"
  "heap defaultState 9 = ObjNativeFn PrimFn"
  "heap defaultState 10 = ObjPair 8 9"
  "heap defaultState 11 = ObjPair 10 7"
  "heap defaultState 12 = ObjSymbol ''define''"
  "heap defaultState 13 = ObjNativeFn PrimDefine"
  "heap defaultState 14 = ObjPair 12 13"
  "heap defaultState 15 = ObjPair 14 11"
  "heap defaultState 16 = ObjSymbol ''defn''"
  "heap defaultState 17 = ObjNativeFn PrimDefn"
  "heap defaultState 18 = ObjPair 16 17"
  "heap defaultState 19 = ObjPair 18 15"
  "heap defaultState 20 = ObjSymbol ''defmacro''"
  "heap defaultState 21 = ObjNativeFn PrimDefmacro"
  "heap defaultState 22 = ObjPair 20 21"
  "heap defaultState 23 = ObjPair 22 19"
  "heap defaultState 24 = ObjSymbol ''quote''"
  "heap defaultState 25 = ObjNativeFn PrimQuote"
  "heap defaultState 26 = ObjPair 24 25"
  "heap defaultState 27 = ObjPair 26 23"
  "heap defaultState 28 = ObjSymbol ''unquote''"
  "heap defaultState 29 = ObjNativeFn PrimUnquote"
  "heap defaultState 30 = ObjPair 28 29"
  "heap defaultState 31 = ObjPair 30 27"
  "heap defaultState 32 = ObjSymbol ''list''"
  "heap defaultState 33 = ObjNativeFn PrimList"
  "heap defaultState 34 = ObjPair 32 33"
  "heap defaultState 35 = ObjPair 34 31"
  "heap defaultState 36 = ObjSymbol ''cons''"
  "heap defaultState 37 = ObjNativeFn PrimCons"
  "heap defaultState 38 = ObjPair 36 37"
  "heap defaultState 39 = ObjPair 38 35"
  "heap defaultState 40 = ObjSymbol ''env''"
  "heap defaultState 41 = ObjNativeFn PrimEnv"
  "heap defaultState 42 = ObjPair 40 41"
  "heap defaultState 43 = ObjPair 42 39"
  "heap defaultState 44 = ObjSymbol ''macex''"
  "heap defaultState 45 = ObjNativeFn PrimMacex"
  "heap defaultState 46 = ObjPair 44 45"
  "heap defaultState 47 = ObjPair 46 43"
  "heap defaultState 48 = ObjSymbol ''import''"
  "heap defaultState 49 = ObjNativeFn PrimImport"
  "heap defaultState 50 = ObjPair 48 49"
  "heap defaultState 51 = ObjPair 50 47"
  "heap defaultState 52 = ObjSymbol ''if''"
  "heap defaultState 53 = ObjNativeFn PrimIf"
  "heap defaultState 54 = ObjPair 52 53"
  "heap defaultState 55 = ObjPair 54 51"
  "heap defaultState 56 = ObjSymbol ''error''"
  "heap defaultState 57 = ObjNativeFn PrimError"
  "heap defaultState 58 = ObjPair 56 57"
  "heap defaultState 59 = ObjPair 58 55"
  "heap defaultState 60 = ObjSymbol ''string''"
  "heap defaultState 61 = ObjNativeFn PrimString"
  "heap defaultState 62 = ObjPair 60 61"
  "heap defaultState 63 = ObjPair 62 59"
  "heap defaultState 64 = ObjSymbol ''io/slurp''"
  "heap defaultState 65 = ObjNativeFn PrimSlurp"
  "heap defaultState 66 = ObjPair 64 65"
  "heap defaultState 67 = ObjPair 66 63"
  "heap defaultState 68 = ObjSymbol ''io/print''"
  "heap defaultState 69 = ObjNativeFn PrimPrintln"
  "heap defaultState 70 = ObjPair 68 69"
  "heap defaultState 71 = ObjPair 70 67"
  "heap defaultState 72 = ObjSymbol ''reader/debug''"
  "heap defaultState 73 = ObjNativeFn PrimReaderDebug"
  "heap defaultState 74 = ObjPair 72 73"
  "heap defaultState 75 = ObjPair 74 71"
  "heap defaultState 76 = ObjSymbol ''=''"
  "heap defaultState 77 = ObjNativeFn PrimEqual"
  "heap defaultState 78 = ObjPair 76 77"
  "heap defaultState 79 = ObjPair 78 75"
  "heap defaultState 80 = ObjSymbol ''+''"
  "heap defaultState 81 = ObjNativeFn (PrimNumeric Plus)"
  "heap defaultState 82 = ObjPair 80 81"
  "heap defaultState 83 = ObjPair 82 79"
  "heap defaultState 84 = ObjSymbol ''-''"
  "heap defaultState 85 = ObjNativeFn (PrimNumeric Minus)"
  "heap defaultState 86 = ObjPair 84 85"
  "heap defaultState 87 = ObjPair 86 83"
  "heap defaultState 88 = ObjSymbol ''*''"
  "heap defaultState 89 = ObjNativeFn (PrimNumeric Times)"
  "heap defaultState 90 = ObjPair 88 89"
  "heap defaultState 91 = ObjPair 90 87"
  "heap defaultState 92 = ObjSymbol ''/''"
  "heap defaultState 93 = ObjNativeFn (PrimNumeric Divide)"
  "heap defaultState 94 = ObjPair 92 93"
  "heap defaultState 95 = ObjPair 94 91"
  by (simp_all add: defaultState_def envState_def envHeap_def length_primitives baseCells_def
      primCell_def nth_primitives)

lemma defaultState_simps:
  "top defaultState = 96"
  "symbols defaultState = [92, 88, 84, 80, 76, 72, 68, 64, 60, 56, 52, 48, 44, 40, 36, 32, 28, 24,
     20, 16, 12, 8, 3, 1]"
  "files defaultState = fs0"
  by (simp_all add: defaultState_def envState_def length_primitives upt_rec)

lemmas fuel_simps =
  readNext.simps(2)[of "pred_numeral v" for v, folded numeral_eq_Suc]
  evaluate.simps(2)[of "pred_numeral v" for v, folded numeral_eq_Suc]
  readList_loop.simps(2)[of "pred_numeral v" for v, folded numeral_eq_Suc]
  listLen_loop.simps(2)[of "pred_numeral v" for v, folded numeral_eq_Suc]
  varsLookup.simps(2)[of "pred_numeral v" for v, folded numeral_eq_Suc]
  envLookup.simps(2)[of "pred_numeral v" for v, folded numeral_eq_Suc]
  getArg_loop.simps(2)[of "pred_numeral v" for v, folded numeral_eq_Suc]
  pushEnv_loop.simps(2)[of "pred_numeral v" for v, folded numeral_eq_Suc]
  forEach.simps(2)[of "pred_numeral v" for v, folded numeral_eq_Suc]
  evaluateList_loop.simps(2)[of "pred_numeral v" for v, folded numeral_eq_Suc]
  evaluateUnquotes.simps(2)[of "pred_numeral v" for v, folded numeral_eq_Suc]
  evaluateUnquotes_loop.simps(2)[of "pred_numeral v" for v, folded numeral_eq_Suc]
  equal.simps(2)[of "pred_numeral v" for v, folded numeral_eq_Suc]
  apply_loop.simps(2)[of "pred_numeral v" for v, folded numeral_eq_Suc]
  evalAll.simps(2)[of "pred_numeral v" for v, folded numeral_eq_Suc]

lemmas ev_defs = bnd_simps readNext_body_def evaluate_body_def read_def newReader_def
  skipWhitespace_def skipLine_def skipComments.simps scanWhile_def peek_def atEof_def advance_def consume_def isSpace_def isDigit_def
  isSymbolChar_def readNumber_def readSymbol_def readString_def readList_def readQuote_def
  readUnquote_def nonNull_def parseInt_def exact_def maxExact_def
  alloc_def cons_def acons_def setCdr_def intern_def isSymbolNamed_def nil_def trueSym_def
  addVariable_def setVariable_def pushEnv_def
  macroExpand_def find'_def apply'_def createNumericPrim_def checkArity_def listLen_def evalArg_def
  getArg_def evaluateList_def isList_def checkParam_def boolObj_def typeError_def
  primQuote_def primUnquote_def primList_def primDefine_def primFn_def primDefn_def primDefmacro_def
  primEqual_def primCons_def primMacex_def primIf_def primError_def
  replLine_def Let_def
  defaultState_simps defaultState_heap

lemma defaultEnv_eval: "defaultEnv (numeral v) fs0 = Ok 2 defaultState"
  unfolding defaultEnv_def defaultState_def
  using createDefaultEnv_initState[of fs0 "pred_numeral v", folded numeral_eq_Suc]
  by (simp add: fs0_def)

lemmas fmt_simps =
  fmt.simps(2)[of "pred_numeral v" for v, folded numeral_eq_Suc]
  fmt_loop.simps(2)[of "pred_numeral v" for v, folded numeral_eq_Suc]

section \<open>Lists in the store\<close>

text \<open>What the loops over a list compute when the list has the spine \<open>cs\<close>, given fuel for
  its length.\<close>

lemma spine_Cons:
  "spine h p (c # cs) t \<longleftrightarrow> p = c \<and> (\<exists>a d. h c = ObjPair a d \<and> spine h d cs t)"
  by (auto split: Obj.splits)

lemma spine_end: "spine h p cs t \<Longrightarrow> typeOf (h t) \<noteq> TPair"
  by (induction cs arbitrary: p) (auto split: Obj.splits)

lemma spine_Nil_start: "spine h p cs t \<Longrightarrow> typeOf (h p) \<noteq> TPair \<Longrightarrow> cs = [] \<and> p = t"
  by (cases cs) (auto split: Obj.splits)

lemma spine_Pair_start: "spine h p cs t \<Longrightarrow> h p = ObjPair a d \<Longrightarrow> \<exists>cs'. cs = p # cs' \<and> spine h d cs' t"
  by (cases cs) (auto split: Obj.splits)

lemma listLen_loop_spine:
  "spine h p cs t \<Longrightarrow> length cs < k \<Longrightarrow>
     listLen_loop k h p len = Some (len + length cs + (if t \<noteq> nil then 1 else 0))"
proof (induction cs arbitrary: p k len)
  case Nil
  then obtain k' where k: "k = Suc k'" by (cases k) auto
  from Nil show ?case by (cases "h p") (auto simp: k)
next
  case (Cons c cs)
  then obtain k' where k: "k = Suc k'" by (cases k) auto
  from Cons.prems obtain a d where c: "p = c" "h c = ObjPair a d" "spine h d cs t"
    unfolding spine_Cons by blast
  have "listLen_loop k' h d (len + 1) = Some (len + 1 + length cs + (if t \<noteq> nil then 1 else 0))"
    using Cons.IH[OF c(3), of k'] Cons.prems(2) k by simp
  thus ?case by (simp add: k c)
qed

lemma listLen_spine:
  "spine h p cs t \<Longrightarrow> length cs < k \<Longrightarrow>
     listLen k h p = Some (if cs = [] then 0 else length cs + (if t \<noteq> nil then 1 else 0))"
proof (cases cs)
  case Nil
  assume "spine h p cs t"
  with Nil show ?thesis by (cases "h p") (auto simp: listLen_def)
next
  case (Cons c cs')
  assume s: "spine h p cs t" and l: "length cs < k"
  from s Cons obtain a d where "h p = ObjPair a d" unfolding Cons spine_Cons by blast
  thus ?thesis using listLen_loop_spine[OF s l, of 0] Cons by (simp add: listLen_def)
qed

lemma getArg_loop_spine:
  "spine h p cs t \<Longrightarrow> length cs < k \<Longrightarrow>
     getArg_loop k h p i (i + j) = Some (if j < length cs then car (h (cs ! j)) else nil)"
proof (induction cs arbitrary: p k i j)
  case Nil
  then obtain k' where k: "k = Suc k'" by (cases k) auto
  from Nil show ?case by (cases "h p") (auto simp: k)
next
  case (Cons c cs)
  then obtain k' where k: "k = Suc k'" by (cases k) auto
  from Cons.prems obtain a d where c: "p = c" "h c = ObjPair a d" "spine h d cs t"
    unfolding spine_Cons by blast
  show ?case
  proof (cases j)
    case 0
    thus ?thesis by (simp add: k c)
  next
    case (Suc j')
    have "getArg_loop k' h d (Suc i) (Suc i + j') = Some (if j' < length cs then car (h (cs ! j')) else nil)"
      using Cons.IH[OF c(3), of k' "Suc i" j'] Cons.prems(2) k by simp
    thus ?thesis by (simp add: k c Suc)
  qed
qed

lemma getArg_spine:
  assumes "spine (heap s) args cs t" and "length cs < k" and "typeOf (heap s nil) \<noteq> TPair"
    and "cs \<noteq> [] \<or> args = nil"
  shows "getArg k args j None s = Ok (if j < length cs then car (heap s (cs ! j)) else nil) s"
proof (cases "args = nil")
  case True
  with assms(1,3) have "cs = []" using spine_Nil_start by blast
  thus ?thesis using True by (simp add: getArg_def)
next
  case False
  with assms(4) obtain c cs' where cs: "cs = c # cs'" by (cases cs) auto
  with assms(1) obtain a d where "heap s args = ObjPair a d" unfolding cs spine_Cons by blast
  thus ?thesis
    using getArg_loop_spine[OF assms(1,2), of 0 j] False by (simp add: getArg_def)
qed

lemma checkArity_spine:
  assumes "spine (heap s) args cs t" and "length cs < k"
  shows "checkArity k args mn mx s =
     (let len = (if cs = [] then 0 else length cs + (if t \<noteq> nil then 1 else 0))
      in if (mn \<noteq> -1 \<and> int len < mn) \<or> (mx \<noteq> -1 \<and> int len > mx)
         then Throw (Error ''arity mismatch'') s else Ok () s)"
  using listLen_spine[OF assms] by (simp add: checkArity_def Let_def)

lemma forEach_pure:
  assumes "\<And>x acc. cb x acc s = Ok (f x acc) s"
  shows "spine (heap s) p cs t \<Longrightarrow> length cs < k \<Longrightarrow>
     forEach k p cb acc s = Ok (foldl (\<lambda>a x. f x a) acc (elems (heap s) cs)) s"
proof (induction cs arbitrary: p k acc)
  case Nil
  then obtain k' where k: "k = Suc k'" by (cases k) auto
  from Nil show ?case by (cases "heap s p") (auto simp: k elems_def)
next
  case (Cons c cs)
  then obtain k' where k: "k = Suc k'" by (cases k) auto
  from Cons.prems obtain a d where c: "p = c" "heap s c = ObjPair a d" "spine (heap s) d cs t"
    unfolding spine_Cons by blast
  have "forEach k' d cb (f a acc) s = Ok (foldl (\<lambda>a x. f x a) (f a acc) (elems (heap s) cs)) s"
    using Cons.IH[OF c(3), of k' "f a acc"] Cons.prems(2) k by simp
  thus ?case by (simp add: k c assms bnd_simps elems_def)
qed

lemma bnd_Ok: "bnd r (\<lambda>x s. Ok x s) = r"
  by (cases r) (simp_all add: bnd_def)

lemma evalArg_spine:
  assumes "spine (heap s) args cs t" and "length cs < k" and "typeOf (heap s nil) \<noteq> TPair"
    and "cs \<noteq> [] \<or> args = nil"
  shows "evalArg k ev env args j None s =
           ev env (if j < length cs then car (heap s (cs ! j)) else nil) s"
  by (simp add: evalArg_def getArg_spine[OF assms] bnd_simps bnd_Ok)

section \<open>Environments\<close>


lemma acons_simps:
  "fst (acons x y a s) = Suc (top s)"
  "heap (snd (acons x y a s)) = (heap s)(top s := ObjPair x y, Suc (top s) := ObjPair (top s) a)"
  "top (snd (acons x y a s)) = top s + 2"
  "symbols (snd (acons x y a s)) = symbols s"
  "files (snd (acons x y a s)) = files s"
  by (simp_all add: acons_def cons_def alloc_def)

lemma bindAll_Cons:
  "bindAll ((v, x) # r) nv s = bindAll r (Suc (top s)) (snd (acons v x nv s))"
  by (simp add: acons_simps(1) split_def Let_def)



lemma bindAll_others:
  "symbols (snd (bindAll xs nv s)) = symbols s \<and> files (snd (bindAll xs nv s)) = files s"
proof (induction xs arbitrary: nv s)
  case Nil
  show ?case by simp
next
  case (Cons vx r)
  obtain v x where vx: "vx = (v, x)" by (cases vx)
  show ?case
    using Cons.IH[of "Suc (top s)" "snd (acons v x nv s)"]
    by (simp add: vx acons_simps bindAll_Cons del: bindAll.simps)
qed



lemma varsLookup_spine:
  "spine h p cs t \<Longrightarrow> length cs < k \<Longrightarrow>
     varsLookup k h sy p = Some (List.find (isBind h sy) (elems h cs))"
proof (induction cs arbitrary: p k)
  case Nil
  then obtain k' where k: "k = Suc k'" by (cases k) auto
  from Nil show ?case by (cases "h p") (auto simp: k elems_def)
next
  case (Cons c cs)
  then obtain k' where k: "k = Suc k'" by (cases k) auto
  from Cons.prems(1) obtain b d where c: "p = c" "h c = ObjPair b d" "spine h d cs t"
    unfolding spine_Cons by blast
  have "varsLookup k' h sy d = Some (List.find (isBind h sy) (elems h cs))"
    using Cons.IH[OF c(3), of k'] Cons.prems(2) k by simp
  moreover have "isBind h sy b = (case h b of ObjPair key v \<Rightarrow> key = sy | _ \<Rightarrow> False)"
    by (simp add: isBind_def)
  ultimately show ?case by (cases "h b") (simp_all add: k c elems_def)
qed

lemma find_append_list:
  "List.find P (xs @ ys) = (case List.find P xs of Some x \<Rightarrow> Some x | None \<Rightarrow> List.find P ys)"
  by (induction xs) simp_all

lemma envLookup_frames:
  "frames h e fs \<Longrightarrow> length fs < k \<Longrightarrow> list_all (\<lambda>(cs, t). length fs + length cs < k) fs \<Longrightarrow>
     envLookup k h sy e = Some (List.find (isBind h sy) (bindings h fs))"
proof (induction fs arbitrary: e k)
  case Nil
  then obtain k' where k: "k = Suc k'" by (cases k) auto
  from Nil show ?case by (cases "h e") (auto simp: k bindings_def)
next
  case (Cons f fs)
  obtain cs t where f: "f = (cs, t)" by (cases f)
  from Cons.prems obtain k' where k: "k = Suc k'" by (cases k) auto
  from Cons.prems(1) obtain vars up where e: "h e = ObjEnv vars up" "spine h vars cs t" "frames h up fs"
    unfolding f by (cases "h e") auto
  have l: "length cs < k'" "length fs < k'"
    using Cons.prems(2,3) by (auto simp: k f)
  have la: "list_all (\<lambda>(cs, t). length fs + length cs < k') fs"
    using Cons.prems(3) by (auto simp: k list_all_iff)
  have v: "varsLookup k' h sy vars = Some (List.find (isBind h sy) (elems h cs))"
    by (rule varsLookup_spine[OF e(2) l(1)])
  have r: "envLookup k' h sy up = Some (List.find (isBind h sy) (bindings h fs))"
    by (rule Cons.IH[OF e(3) l(2) la])
  show ?case
    by (cases "List.find (isBind h sy) (elems h cs)")
      (simp_all add: k e v r f bindings_def find_append_list)
qed



lemma map_of_rev_None:
  "sy \<notin> fst ` set xs \<Longrightarrow> map_of (rev xs) sy = None"
  by (simp add: map_of_eq_None_iff)







section \<open>The reader's block comment\<close>

lemma readNext_hash_minus:
  assumes "r1 = skipComments (skipWhitespace r)"
    and "peek r1 0 = Some CHR ''#''" and "peek r1 1 = Some CHR ''-''"
  shows "readNext (Suc n) r s =
           bnd (readNext n (r1\<lparr>pos := pos r1 + 2\<rparr>) s) (\<lambda>(thrownAway, r3) s3. readNext n r3 s3)"
proof -
  from assms(2) have lt: "pos r1 < length (source r1)"
    by (simp add: peek_def split: if_splits)
  then have ne: "\<not> atEof r1" by (simp add: atEof_def)
  have adv: "advance r1 = r1\<lparr>pos := pos r1 + 1\<rparr>" using lt by (simp add: advance_def)
  have p2: "peek (advance r1) 0 = Some CHR ''-''"
    using assms(3) by (auto simp: adv peek_def split: if_splits)
  from assms(3) have lt2: "pos r1 + 1 < length (source r1)"
    by (simp add: peek_def split: if_splits)
  have adv2: "advance (advance r1) = r1\<lparr>pos := pos r1 + 2\<rparr>"
    using lt2 by (simp add: adv advance_def)
  have c1: "consume (CHR ''#'') r1 s = Ok (advance r1) s"
    using assms(2) by (simp add: consume_def)
  have c2: "consume (CHR ''-'') (advance r1) s = Ok (advance (advance r1)) s"
    using p2 by (simp add: consume_def)
  show ?thesis
    unfolding readNext.simps readNext_body_def assms(1)[symmetric] Let_def
    by (simp add: ne assms(2) isDigit_def c1 c2 adv2 bnd_simps)
qed

lemma read_plus:
  "read 30 (newReader src_plus) defaultState =
     Ok (Some 96, \<lparr>source = src_plus, pos = 12\<rparr>)
       (defaultState\<lparr>top := 102, heap := (heap defaultState)
          (97 := ObjNum (IntNum 1), 96 := ObjPair 80 98, 99 := ObjNum (IntNum 2), 100 := ObjNum (IntNum 3),
           101 := ObjPair 100 0, 98 := ObjPair 97 101)\<rparr>)"
  by (simp add: src_plus_def ev_defs fuel_simps cong: evcongs)

lemma fmt_plus:
  "fmt 30 ((heap defaultState)
          (97 := ObjNum (IntNum 1), 96 := ObjPair 80 98, 99 := ObjNum (IntNum 2), 100 := ObjNum (IntNum 3),
           101 := ObjPair 100 0, 98 := ObjPair 97 101)) 96 = Some ''(+ 1 3)''"
  by (simp add: fmt_simps ev_defs showInt_def cong: evcongs)

lemma eval_plus:
  "replLine 30 2 src_plus defaultState =
     Ok (Some 102)
       (defaultState\<lparr>top := 103, heap := (heap defaultState)
          (97 := ObjNum (IntNum 1), 96 := ObjPair 80 98, 99 := ObjNum (IntNum 2), 100 := ObjNum (IntNum 3),
           101 := ObjPair 100 0, 98 := ObjPair 97 101, 102 := ObjNum (IntNum 4))\<rparr>)"
  by (simp add: src_plus_def ev_defs fuel_simps cong: evcongs)

text \<open>
  Claim C7. When the next thing in the source (after white space and line comments) is
  \<open>#-\<close>, \<open>readNext\<close> reads one element from behind the \<open>#-\<close>, drops it, and returns what
  the next \<open>readNext\<close> returns from where the dropped element ended. Read in the default
  environment, \<open>(+ 1 #- 2 3)\<close> is the list \<open>(+ 1 3)\<close>, and evaluating it gives the number 4.
\<close>

theorem hash_minus_elides_next_element:
  "(skipComments (skipWhitespace r) = r1 \<and> peek r1 0 = Some CHR ''#'' \<and> peek r1 1 = Some CHR ''-''
      \<longrightarrow> readNext (Suc n) r s =
            bnd (readNext n (r1\<lparr>pos := pos r1 + 2\<rparr>) s)
              (\<lambda>(thrownAway, r3) s3. readNext n r3 s3))
   \<and> (case bnd (defaultEnv 30 fs0) (\<lambda>env. read 30 (newReader src_plus)) of
         Ok (Some v, r') s' \<Rightarrow> fmt 30 (heap s') v = Some ''(+ 1 3)''
       | _ \<Rightarrow> False)
   \<and> (case bnd (defaultEnv 30 fs0) (\<lambda>env. replLine 30 env src_plus) of
         Ok (Some v) s' \<Rightarrow> heap s' v = ObjNum (IntNum 4)
       | _ \<Rightarrow> False)"
proof (intro conjI impI)
  assume "skipComments (skipWhitespace r) = r1 \<and> peek r1 0 = Some CHR ''#''
        \<and> peek r1 1 = Some CHR ''-''"
  then have "r1 = skipComments (skipWhitespace r)" "peek r1 0 = Some CHR ''#''"
    "peek r1 1 = Some CHR ''-''"
    by blast+
  then show "readNext (Suc n) r s =
            bnd (readNext n (r1\<lparr>pos := pos r1 + 2\<rparr>) s)
              (\<lambda>(thrownAway, r3) s3. readNext n r3 s3)"
    by (rule readNext_hash_minus)
next
  show "case bnd (defaultEnv 30 fs0) (\<lambda>env. read 30 (newReader src_plus)) of
         Ok (Some v, r') s' \<Rightarrow> fmt 30 (heap s') v = Some ''(+ 1 3)''
       | _ \<Rightarrow> False"
    by (simp add: defaultEnv_eval bnd_simps read_plus fmt_plus)
next
  show "case bnd (defaultEnv 30 fs0) (\<lambda>env. replLine 30 env src_plus) of
         Ok (Some v) s' \<Rightarrow> heap s' v = ObjNum (IntNum 4)
       | _ \<Rightarrow> False"
    by (simp add: defaultEnv_eval bnd_simps eval_plus)
qed

theorem hash_minus_elides_next_element_witness:
  "skipComments (skipWhitespace (newReader ''  #- 2 3'')) = \<lparr>source = ''  #- 2 3'', pos = 2\<rparr>
   \<and> peek \<lparr>source = ''  #- 2 3'', pos = 2\<rparr> 0 = Some CHR ''#''
   \<and> peek \<lparr>source = ''  #- 2 3'', pos = 2\<rparr> 1 = Some CHR ''-''
   \<and> readNext 3 (newReader ''  #- 2 3'') defaultState =
        bnd (readNext 2 \<lparr>source = ''  #- 2 3'', pos = 4\<rparr> defaultState)
          (\<lambda>(thrownAway, r3) s3. readNext 2 r3 s3)
   \<and> readNext 3 (newReader ''  #- 2 3'') defaultState =
        Ok (Some 97, \<lparr>source = ''  #- 2 3'', pos = 8\<rparr>)
          (defaultState\<lparr>heap := (heap defaultState)(96 := ObjNum (IntNum 2), 97 := ObjNum (IntNum 3)), top := 98\<rparr>)"
proof -
  have a: "skipComments (skipWhitespace (newReader ''  #- 2 3'')) = \<lparr>source = ''  #- 2 3'', pos = 2\<rparr>"
    by (simp add: ev_defs skipComments.simps)
  have b: "peek \<lparr>source = ''  #- 2 3'', pos = 2\<rparr> 0 = Some CHR ''#''"
    "peek \<lparr>source = ''  #- 2 3'', pos = 2\<rparr> 1 = Some CHR ''-''"
    by (simp_all add: peek_def)
  have c: "readNext 2 \<lparr>source = ''  #- 2 3'', pos = 4\<rparr> defaultState =
      Ok (Some 96, \<lparr>source = ''  #- 2 3'', pos = 6\<rparr>)
        (defaultState\<lparr>heap := (heap defaultState)(96 := ObjNum (IntNum 2)), top := 97\<rparr>)"
    by (simp add: ev_defs fuel_simps cong: evcongs)
  have d: "readNext 2 \<lparr>source = ''  #- 2 3'', pos = 6\<rparr>
        (defaultState\<lparr>heap := (heap defaultState)(96 := ObjNum (IntNum 2)), top := 97\<rparr>) =
      Ok (Some 97, \<lparr>source = ''  #- 2 3'', pos = 8\<rparr>)
        (defaultState\<lparr>heap := (heap defaultState)(96 := ObjNum (IntNum 2), 97 := ObjNum (IntNum 3)), top := 98\<rparr>)"
    by (simp add: ev_defs fuel_simps cong: evcongs)
  have e: "readNext 3 (newReader ''  #- 2 3'') defaultState =
        bnd (readNext 2 \<lparr>source = ''  #- 2 3'', pos = 4\<rparr> defaultState)
          (\<lambda>(thrownAway, r3) s3. readNext 2 r3 s3)"
    using hash_minus_elides_next_element
      [of "newReader ''  #- 2 3''" "\<lparr>source = ''  #- 2 3'', pos = 2\<rparr>" 2 defaultState] a b
    by (simp add: eval_nat_numeral del: readNext.simps)
  show ?thesis
    using a b e by (simp add: c d bnd_simps)
qed

section \<open>Structural equality\<close>

lemma equal_refl: "equal (Suc k) h a a = Some True"
  by simp

lemma equal_sym: "equal k h a b = equal k h b a"
proof (induction k arbitrary: a b)
  case 0 show ?case by simp
next
  case (Suc k)
  show ?case
  proof (cases "typeOf (h a) = typeOf (h b)")
    case False then show ?thesis by auto
  next
    case True
    show ?thesis
    proof (cases "a = b")
      case True then show ?thesis by simp
    next
      case False
      have s: "strictEq x y = strictEq y x" for x y
        by (cases x; cases y) auto
      from False True Suc[of "car (h a)" "car (h b)"] Suc[of "cdr (h a)" "cdr (h b)"] s
      show ?thesis
        by (cases "h a"; cases "h b") (auto split: option.splits bool.splits)
    qed
  qed
qed

lemma equal_types: "typeOf (h a) \<noteq> typeOf (h b) \<Longrightarrow> equal (Suc k) h a b = Some False"
  by simp

lemma equal_Num:
  "h a = ObjNum x \<Longrightarrow> h b = ObjNum y \<Longrightarrow> equal (Suc k) h a b = Some (a = b \<or> strictEq x y)"
  by auto

lemma equal_String:
  "h a = ObjString x \<Longrightarrow> h b = ObjString y \<Longrightarrow> equal (Suc k) h a b = Some (x = y)"
  by auto

lemma equal_Pair_True:
  "h a = ObjPair a1 a2 \<Longrightarrow> h b = ObjPair b1 b2 \<Longrightarrow> a \<noteq> b \<Longrightarrow>
   equal (Suc k) h a b = Some True \<longleftrightarrow>
     (\<exists>n. listLen k h a = Some n \<and> listLen k h b = Some n)
     \<and> equal k h a1 b1 = Some True \<and> equal k h a2 b2 = Some True"
  by (auto split: option.splits bool.splits)

lemma equal_Pair_length:
  "h a = ObjPair a1 a2 \<Longrightarrow> h b = ObjPair b1 b2 \<Longrightarrow> a \<noteq> b \<Longrightarrow>
   listLen k h a = Some m \<Longrightarrow> listLen k h b = Some n \<Longrightarrow> m \<noteq> n \<Longrightarrow>
   equal (Suc k) h a b = Some False"
  by simp

lemma equal_Pair_car:
  "h a = ObjPair a1 a2 \<Longrightarrow> h b = ObjPair b1 b2 \<Longrightarrow> a \<noteq> b \<Longrightarrow>
   listLen k h a = Some n \<Longrightarrow> listLen k h b = Some n \<Longrightarrow> equal k h a1 b1 = Some False \<Longrightarrow>
   equal (Suc k) h a b = Some False"
  by simp

lemma equal_Pair_cdr:
  "h a = ObjPair a1 a2 \<Longrightarrow> h b = ObjPair b1 b2 \<Longrightarrow> a \<noteq> b \<Longrightarrow>
   listLen k h a = Some n \<Longrightarrow> listLen k h b = Some n \<Longrightarrow> equal k h a1 b1 = Some True \<Longrightarrow>
   equal (Suc k) h a b = equal k h a2 b2"
  by simp

lemma equal_other:
  "typeOf (h a) \<notin> {TNum, TString, TPair} \<Longrightarrow> equal (Suc k) h a b = Some (a = b)"
  by (cases "h a"; cases "h b") auto

text \<open>Enough fuel: on finite values \<open>listLen\<close> and \<open>equal\<close> return, and a result once
  returned stays the same with more fuel.\<close>

lemma listLen_loop_finite:
  "finiteObj n h p \<Longrightarrow> n \<le> k \<Longrightarrow> \<exists>r. listLen_loop k h p len = Some r"
proof (induction n arbitrary: p k len)
  case 0 then show ?case by simp
next
  case (Suc n)
  then obtain k' where k: "k = Suc k'" "n \<le> k'" by (cases k) auto
  show ?case
  proof (cases "h p")
    case (ObjPair x y)
    with Suc.prems have "finiteObj n h y" by simp
    from Suc.IH[OF this k(2), of "len + 1"] ObjPair k show ?thesis by simp
  qed (simp_all add: k)
qed

lemma listLen_finite: "finiteObj n h p \<Longrightarrow> n \<le> k \<Longrightarrow> \<exists>r. listLen k h p = Some r"
  using listLen_loop_finite[of n h p k 0] by (cases "h p") (auto simp: listLen_def)

lemma finiteObj_mono: "finiteObj n h a \<Longrightarrow> finiteObj (Suc n) h a"
proof (induction n arbitrary: a)
  case 0 then show ?case by simp
next
  case (Suc n)
  then show ?case by (cases "h a") auto
qed

lemma equal_finite:
  "finiteObj k h a \<Longrightarrow> finiteObj k h b \<Longrightarrow> \<exists>r. equal (Suc k) h a b = Some r"
proof (induction k arbitrary: a b)
  case 0 then show ?case by simp
next
  case (Suc k)
  show ?case
  proof (cases "typeOf (h a) = typeOf (h b) \<and> a \<noteq> b \<and> typeOf (h a) = TPair")
    case False
    then show ?thesis by (cases "h a"; cases "h b") auto
  next
    case True
    then obtain a1 a2 b1 b2 where p: "h a = ObjPair a1 a2" "h b = ObjPair b1 b2" "a \<noteq> b"
      by (cases "h a"; cases "h b") auto
    with Suc.prems have f: "finiteObj k h a1" "finiteObj k h a2" "finiteObj k h b1" "finiteObj k h b2"
      by simp_all
    from Suc.prems obtain m n where l: "listLen (Suc k) h a = Some m" "listLen (Suc k) h b = Some n"
      using listLen_finite[of "Suc k" h a "Suc k"] listLen_finite[of "Suc k" h b "Suc k"] by auto
    from Suc.IH[OF f(1,3)] obtain r1 where r1: "equal (Suc k) h a1 b1 = Some r1" by auto
    from Suc.IH[OF f(2,4)] obtain r2 where r2: "equal (Suc k) h a2 b2 = Some r2" by auto
    show ?thesis
      using p l r1 r2 by (cases r1) (auto simp del: equal.simps simp add: equal.simps(2)[of "Suc k"])
  qed
qed

lemma listLen_loop_mono:
  "listLen_loop k h p len = Some r \<Longrightarrow> listLen_loop (Suc k) h p len = Some r"
proof (induction k arbitrary: p len)
  case 0 then show ?case by simp
next
  case (Suc k)
  show ?case
  proof (cases "h p")
    case (ObjPair x y)
    with Suc.prems have "listLen_loop k h y (len + 1) = Some r" by simp
    from Suc.IH[OF this] ObjPair show ?thesis by simp
  next
  qed (use Suc.prems in simp_all)
qed

lemma listLen_mono: "listLen k h p = Some r \<Longrightarrow> listLen (Suc k) h p = Some r"
  using listLen_loop_mono[of k h p 0 r] by (cases "h p") (auto simp: listLen_def)

lemma equal_mono: "equal k h a b = Some r \<Longrightarrow> equal (Suc k) h a b = Some r"
proof (induction k arbitrary: a b r)
  case 0 then show ?case by simp
next
  case (Suc k)
  show ?case
  proof (cases "typeOf (h a) = typeOf (h b) \<and> a \<noteq> b \<and> typeOf (h a) = TPair")
    case False
    with Suc.prems show ?thesis by (cases "h a"; cases "h b") (auto split: if_splits)
  next
    case True
    then obtain a1 a2 b1 b2 where p: "h a = ObjPair a1 a2" "h b = ObjPair b1 b2" "a \<noteq> b"
      by (cases "h a"; cases "h b") auto
    from Suc.prems p obtain m n where l: "listLen k h a = Some m" "listLen k h b = Some n"
      by (auto split: option.splits)
    then have l': "listLen (Suc k) h a = Some m" "listLen (Suc k) h b = Some n"
      by (simp_all add: listLen_mono)
    show ?thesis
    proof (cases "m = n")
      case False
      with Suc.prems p l l' show ?thesis by (simp del: equal.simps add: equal.simps(2)[of _ h a b])
    next
      case True
      with Suc.prems p l obtain r1 where r1: "equal k h a1 b1 = Some r1"
        by (auto split: option.splits)
      then have r1': "equal (Suc k) h a1 b1 = Some r1" by (rule Suc.IH)
      show ?thesis
      proof (cases r1)
        case False
        with Suc.prems p l l' r1 r1' True show ?thesis
          by (simp del: equal.simps add: equal.simps(2)[of _ h a b])
      next
        case t: True
        with Suc.prems p l True r1 have "equal k h a2 b2 = Some r" by simp
        then have "equal (Suc k) h a2 b2 = Some r" by (rule Suc.IH)
        with p l' r1' True t show ?thesis
          by (simp del: equal.simps add: equal.simps(2)[of _ h a b])
      qed
    qed
  qed
qed

lemma eval_nan:
  "(case bnd (defaultEnv 30 fs0) (\<lambda>env. replLine 30 env src_nan) of
      Ok (Some v) s' \<Rightarrow> v = nil
    | _ \<Rightarrow> False)"
  by (simp add: defaultEnv_eval src_nan_def ev_defs fuel_simps cong: evcongs)

text \<open>
  Claim C5, as amended. \<open>equal\<close> is reflexive and symmetric (for every fuel, so also where
  it does not return). Objects of different variants are never equal. Two Numbers are
  equal exactly when they are the same object or their payloads are \<open>===\<close>: two distinct
  Numbers that hold \<open>NaN\<close> are not equal. Two Strings are equal exactly when their payloads
  are. Two distinct Pairs are equal exactly when their list lengths agree, their cars are
  equal and their cdrs are equal; they are unequal as soon as the lengths differ or the
  cars are unequal, and otherwise as their cdrs are. An object of any other variant is
  equal to itself only, so two distinct Function or Macro objects are never equal,
  whatever their fields. On finite values \<open>equal\<close> returns with fuel above their depth, and
  more fuel never changes a result.
\<close>

theorem equal_spec:
  "equal (Suc k) h a a = Some True
   \<and> equal k h a b = equal k h b a
   \<and> (typeOf (h a) \<noteq> typeOf (h b) \<longrightarrow> equal (Suc k) h a b = Some False)
   \<and> (\<forall>x y. h a = ObjNum x \<and> h b = ObjNum y \<longrightarrow>
         equal (Suc k) h a b = Some (a = b \<or> strictEq x y))
   \<and> (\<forall>x y. h a = ObjString x \<and> h b = ObjString y \<longrightarrow> equal (Suc k) h a b = Some (x = y))
   \<and> (\<forall>a1 a2 b1 b2. h a = ObjPair a1 a2 \<and> h b = ObjPair b1 b2 \<and> a \<noteq> b \<longrightarrow>
         (equal (Suc k) h a b = Some True \<longleftrightarrow>
            (\<exists>n. listLen k h a = Some n \<and> listLen k h b = Some n)
            \<and> equal k h a1 b1 = Some True \<and> equal k h a2 b2 = Some True)
         \<and> (\<forall>m n. listLen k h a = Some m \<and> listLen k h b = Some n \<and> m \<noteq> n \<longrightarrow>
               equal (Suc k) h a b = Some False)
         \<and> (\<forall>n. listLen k h a = Some n \<and> listLen k h b = Some n
                  \<and> equal k h a1 b1 = Some False \<longrightarrow>
               equal (Suc k) h a b = Some False)
         \<and> (\<forall>n. listLen k h a = Some n \<and> listLen k h b = Some n
                  \<and> equal k h a1 b1 = Some True \<longrightarrow>
               equal (Suc k) h a b = equal k h a2 b2))
   \<and> (typeOf (h a) \<notin> {TNum, TString, TPair} \<longrightarrow> equal (Suc k) h a b = Some (a = b))
   \<and> (\<forall>p bd e. (h a = ObjFn p bd e \<or> h a = ObjMacro p bd e) \<and> a \<noteq> b
         \<longrightarrow> equal (Suc k) h a b = Some False)
   \<and> (finiteObj k h a \<and> finiteObj k h b \<longrightarrow> (\<exists>r. equal (Suc k) h a b = Some r))
   \<and> (\<forall>r. equal k h a b = Some r \<longrightarrow> equal (Suc k) h a b = Some r)"
proof -
  have c1: "equal (Suc k) h a a = Some True"
    by (rule equal_refl)
  have c2: "equal k h a b = equal k h b a"
    by (rule equal_sym)
  have c3: "typeOf (h a) \<noteq> typeOf (h b) \<longrightarrow> equal (Suc k) h a b = Some False"
    using equal_types[of h a b k] by blast
  have c4: "\<forall>x y. h a = ObjNum x \<and> h b = ObjNum y \<longrightarrow>
         equal (Suc k) h a b = Some (a = b \<or> strictEq x y)"
    using equal_Num[of h a _ b _ k] by blast
  have c5: "\<forall>x y. h a = ObjString x \<and> h b = ObjString y \<longrightarrow>
         equal (Suc k) h a b = Some (x = y)"
    using equal_String[of h a _ b _ k] by blast
  have c6: "\<forall>a1 a2 b1 b2. h a = ObjPair a1 a2 \<and> h b = ObjPair b1 b2 \<and> a \<noteq> b \<longrightarrow>
         (equal (Suc k) h a b = Some True \<longleftrightarrow>
            (\<exists>n. listLen k h a = Some n \<and> listLen k h b = Some n)
            \<and> equal k h a1 b1 = Some True \<and> equal k h a2 b2 = Some True)
         \<and> (\<forall>m n. listLen k h a = Some m \<and> listLen k h b = Some n \<and> m \<noteq> n \<longrightarrow>
               equal (Suc k) h a b = Some False)
         \<and> (\<forall>n. listLen k h a = Some n \<and> listLen k h b = Some n
                  \<and> equal k h a1 b1 = Some False \<longrightarrow>
               equal (Suc k) h a b = Some False)
         \<and> (\<forall>n. listLen k h a = Some n \<and> listLen k h b = Some n
                  \<and> equal k h a1 b1 = Some True \<longrightarrow>
               equal (Suc k) h a b = equal k h a2 b2)"
  proof (intro allI impI, elim conjE, intro conjI)
    fix a1 a2 b1 b2
    assume p: "h a = ObjPair a1 a2" "h b = ObjPair b1 b2" "a \<noteq> b"
    show "equal (Suc k) h a b = Some True \<longleftrightarrow>
            (\<exists>n. listLen k h a = Some n \<and> listLen k h b = Some n)
            \<and> equal k h a1 b1 = Some True \<and> equal k h a2 b2 = Some True"
      using p by (rule equal_Pair_True)
    show "\<forall>m n. listLen k h a = Some m \<and> listLen k h b = Some n \<and> m \<noteq> n \<longrightarrow>
               equal (Suc k) h a b = Some False"
      using equal_Pair_length[OF p] by blast
    show "\<forall>n. listLen k h a = Some n \<and> listLen k h b = Some n
                  \<and> equal k h a1 b1 = Some False \<longrightarrow>
               equal (Suc k) h a b = Some False"
      using equal_Pair_car[OF p] by blast
    show "\<forall>n. listLen k h a = Some n \<and> listLen k h b = Some n
                  \<and> equal k h a1 b1 = Some True \<longrightarrow>
               equal (Suc k) h a b = equal k h a2 b2"
      using equal_Pair_cdr[OF p] by blast
  qed
  have c7: "typeOf (h a) \<notin> {TNum, TString, TPair} \<longrightarrow> equal (Suc k) h a b = Some (a = b)"
    using equal_other[of h a k b] by blast
  have c8: "\<forall>p bd e. (h a = ObjFn p bd e \<or> h a = ObjMacro p bd e) \<and> a \<noteq> b
         \<longrightarrow> equal (Suc k) h a b = Some False"
    using equal_other[of h a k b] by auto
  have c9: "finiteObj k h a \<and> finiteObj k h b \<longrightarrow> (\<exists>r. equal (Suc k) h a b = Some r)"
    using equal_finite[of k h a b] by blast
  have c10: "\<forall>r. equal k h a b = Some r \<longrightarrow> equal (Suc k) h a b = Some r"
    using equal_mono[of k h a b] by blast
  show ?thesis
    by (intro conjI) (rule c1, rule c2, rule c3, rule c4, rule c5, rule c6, rule c7, rule c8,
        rule c9, rule c10)
qed

theorem equal_spec_witness:
  "equal 2 eqHeap 2 3 = Some True \<and> equal 2 eqHeap 2 10 = Some False
   \<and> equal 2 eqHeap 16 17 = Some False \<and> equal 2 eqHeap 16 16 = Some True
   \<and> equal 2 eqHeap 8 9 = Some True \<and> equal 2 eqHeap 8 11 = Some False
   \<and> equal 2 eqHeap 2 14 = Some False \<and> equal 2 eqHeap 2 4 = Some False
   \<and> equal 2 eqHeap 8 4 = Some False
   \<and> equal 3 eqHeap 4 5 = Some True \<and> equal 3 eqHeap 5 4 = Some True
   \<and> equal 3 eqHeap 4 12 = Some False \<and> equal 4 eqHeap 4 13 = Some False
   \<and> equal 3 eqHeap 4 15 = Some False
   \<and> equal 2 eqHeap 6 7 = Some False \<and> equal 2 eqHeap 6 6 = Some True
   \<and> finiteObj 2 eqHeap 4 \<and> finiteObj 2 eqHeap 12
   \<and> (\<exists>r. equal 3 eqHeap 4 12 = Some r) \<and> equal 4 eqHeap 4 12 = Some False"
proof -
  have c: "eqHeap 0 = ObjNil" "eqHeap 2 = ObjNum (IntNum 1)" "eqHeap 3 = ObjNum (IntNum 1)"
    "eqHeap 4 = ObjPair 2 0" "eqHeap 5 = ObjPair 3 0" "eqHeap 6 = ObjFn 0 0 0"
    "eqHeap 7 = ObjFn 0 0 0" "eqHeap 8 = ObjString ''a''" "eqHeap 9 = ObjString ''a''"
    "eqHeap 10 = ObjNum (IntNum 2)" "eqHeap 11 = ObjString ''b''" "eqHeap 12 = ObjPair 10 0"
    "eqHeap 13 = ObjPair 2 5" "eqHeap 14 = ObjString ''1''" "eqHeap 15 = ObjPair 14 0"
    "eqHeap 16 = ObjNum NaN" "eqHeap 17 = ObjNum NaN"
    by (simp_all add: eqHeap_def)
  have l: "listLen 2 eqHeap 4 = Some 1" "listLen 2 eqHeap 5 = Some 1" "listLen 2 eqHeap 12 = Some 1"
    "listLen 2 eqHeap 15 = Some 1"
    by (simp_all add: listLen_def c nil_def numeral_2_eq_2)
  have l3: "listLen 3 eqHeap 4 = Some 1" "listLen 3 eqHeap 13 = Some 2"
    by (simp_all add: listLen_def c nil_def numeral_3_eq_3)
  have s: "Suc 3 = 4" "Suc 2 = 3" "Suc 1 = 2" by simp_all
  have f: "finiteObj 2 eqHeap 4" "finiteObj 2 eqHeap 12"
    by (simp_all add: eqHeap_def numeral_2_eq_2)
  have P1: "\<And>A R. A \<and> R \<Longrightarrow> A"
    and P2: "\<And>A B R. A \<and> B \<and> R \<Longrightarrow> B"
    and P3: "\<And>A B C R. A \<and> B \<and> C \<and> R \<Longrightarrow> C"
    and P4: "\<And>A B C D R. A \<and> B \<and> C \<and> D \<and> R \<Longrightarrow> D"
    and P5: "\<And>A B C D E R. A \<and> B \<and> C \<and> D \<and> E \<and> R \<Longrightarrow> E"
    and P6: "\<And>A B C D E F R. A \<and> B \<and> C \<and> D \<and> E \<and> F \<and> R \<Longrightarrow> F"
    and P7: "\<And>A B C D E F G R. A \<and> B \<and> C \<and> D \<and> E \<and> F \<and> G \<and> R \<Longrightarrow> G"
    and P8: "\<And>A B C D E F G H R. A \<and> B \<and> C \<and> D \<and> E \<and> F \<and> G \<and> H \<and> R \<Longrightarrow> H"
    and P9: "\<And>A B C D E F G H I R.
        A \<and> B \<and> C \<and> D \<and> E \<and> F \<and> G \<and> H \<and> I \<and> R \<Longrightarrow> I"
    and P10: "\<And>A B C D E F G H I R.
        A \<and> B \<and> C \<and> D \<and> E \<and> F \<and> G \<and> H \<and> I \<and> R \<Longrightarrow> R"
    by blast+
  have n1: "equal 2 eqHeap 2 3 = Some True"
    using equal_spec[of 1 eqHeap 2 3, THEN P4] c unfolding s by simp
  have n2: "equal 2 eqHeap 2 10 = Some False"
    using equal_spec[of 1 eqHeap 2 10, THEN P4] c unfolding s by simp
  have n3: "equal 2 eqHeap 16 17 = Some False"
    using equal_spec[of 1 eqHeap 16 17, THEN P4] c unfolding s by simp
  have n4: "equal 2 eqHeap 16 16 = Some True"
    using equal_spec[of 1 eqHeap 16 16, THEN P1] unfolding s by simp
  have s1: "equal 2 eqHeap 8 9 = Some True"
    using equal_spec[of 1 eqHeap 8 9, THEN P5] c unfolding s by simp
  have s2: "equal 2 eqHeap 8 11 = Some False"
    using equal_spec[of 1 eqHeap 8 11, THEN P5] c unfolding s by simp
  have x1: "equal 2 eqHeap 2 14 = Some False"
    using equal_spec[of 1 eqHeap 2 14, THEN P3] c unfolding s by simp
  have x2: "equal 2 eqHeap 2 4 = Some False"
    using equal_spec[of 1 eqHeap 2 4, THEN P3] c unfolding s by simp
  have x3: "equal 2 eqHeap 8 4 = Some False"
    using equal_spec[of 1 eqHeap 8 4, THEN P3] c unfolding s by simp
  have z: "equal 2 eqHeap 0 0 = Some True"
    using equal_spec[of 1 eqHeap 0 0, THEN P7] c unfolding s by simp
  have p1: "equal 3 eqHeap 4 5 = Some True"
    using equal_spec[of 2 eqHeap 4 5, THEN P6] c l n1 z unfolding s by simp
  have p2: "equal 3 eqHeap 5 4 = Some True"
    using equal_spec[of 3 eqHeap 5 4, THEN P2] p1 by simp
  have p3: "equal 3 eqHeap 4 12 = Some False"
    using equal_spec[of 2 eqHeap 4 12, THEN P6] c l n2 unfolding s by simp
  have p4: "equal 3 eqHeap 4 15 = Some False"
    using equal_spec[of 2 eqHeap 4 15, THEN P6] c l x1 unfolding s by simp
  have p5: "equal 4 eqHeap 4 13 = Some False"
    using equal_spec[of 3 eqHeap 4 13, THEN P6] c l3 unfolding s by simp
  have f1: "equal 2 eqHeap 6 7 = Some False"
    using equal_spec[of 1 eqHeap 6 7, THEN P8] c unfolding s by simp
  have f2: "equal 2 eqHeap 6 6 = Some True"
    using equal_spec[of 1 eqHeap 6 6, THEN P7] c unfolding s by simp
  have e: "\<exists>r. equal 3 eqHeap 4 12 = Some r"
    using equal_spec[of 2 eqHeap 4 12, THEN P9] f unfolding s by simp
  have m: "equal 4 eqHeap 4 12 = Some False"
    using equal_spec[of 3 eqHeap 4 12, THEN P10] p3 unfolding s by blast
  show ?thesis
    using n1 n2 n3 n4 s1 s2 x1 x2 x3 p1 p2 p3 p4 p5 f1 f2 f e m by simp
qed

theorem equal_NaN_counterexample:
  "\<not> (\<forall>k h a b x y. h a = ObjNum x \<and> h b = ObjNum y \<longrightarrow>
         equal (Suc k) h a b = Some (x = y))
   \<and> equal 2 eqHeap 16 17 = Some False
   \<and> eqHeap 16 = ObjNum NaN \<and> eqHeap 17 = ObjNum NaN
   \<and> (case bnd (defaultEnv 30 fs0) (\<lambda>env. replLine 30 env src_nan) of
        Ok (Some v) s' \<Rightarrow> v = nil
      | _ \<Rightarrow> False)"
proof -
  have c: "eqHeap 16 = ObjNum NaN" "eqHeap 17 = ObjNum NaN"
    by (simp_all add: eqHeap_def)
  have e: "equal 2 eqHeap 16 17 = Some False"
    by (simp add: c numeral_2_eq_2)
  have "\<not> (\<forall>k h a b x y. h a = ObjNum x \<and> h b = ObjNum y \<longrightarrow>
         equal (Suc k) h a b = Some (x = y))"
  proof
    assume a: "\<forall>k h a b x y. h a = ObjNum x \<and> h b = ObjNum y \<longrightarrow>
         equal (Suc k) h a b = Some (x = y)"
    have "equal (Suc 1) eqHeap 16 17 = Some (NaN = NaN)"
      using a c by blast
    thus False using e by (simp add: numeral_2_eq_2)
  qed
  thus ?thesis using c e eval_nan by simp
qed

section \<open>The conditional\<close>

lemma primIf_arity:
  "listLen k (heap s) args = Some n \<Longrightarrow> n < 2 \<or> 3 < n \<Longrightarrow>
     primIf k ev env args s = Throw (Error ''arity mismatch'') s"
  by (auto simp: primIf_def checkArity_def bnd_simps)

lemma primIf_spine:
  assumes sp: "spine (heap s) args cs nil" and len: "length cs = 2 \<or> length cs = 3"
    and k: "length cs < k"
    and e: "ev env (hd (elems (heap s) cs)) s = Ok cond s'"
    and sp': "spine (heap s') args cs nil"
  shows "primIf k ev env args s =
        (if cond = trueSym then ev env (elems (heap s') cs ! 1) s'
         else if length cs = 3 then ev env (elems (heap s') cs ! 2) s'
         else ev env nil s')"
proof -
  have n: "typeOf (heap s nil) \<noteq> TPair" "typeOf (heap s' nil) \<noteq> TPair"
    using spine_end[OF sp] spine_end[OF sp'] by simp_all
  have ne: "cs \<noteq> []" using len by auto
  have hd: "hd (elems (heap s) cs) = car (heap s (cs ! 0))"
    using ne by (cases cs) (simp_all add: elems_def)
  have a: "checkArity k args 2 3 s = Ok () s"
    using len ne by (auto simp: checkArity_spine[OF sp k])
  have b: "evalArg k ev env args 0 None s = Ok cond s'"
    using evalArg_spine[OF sp k n(1), of ev env 0] e ne len by (auto simp: hd)
  have c: "getArg k args (Suc 0) None s' = Ok (elems (heap s') cs ! 1) s'"
    using getArg_spine[OF sp' k n(2), of "Suc 0"] ne len by (auto simp: elems_def)
  have d: "getArg k args 2 None s' =
             Ok (if length cs = 3 then elems (heap s') cs ! 2 else nil) s'"
    using getArg_spine[OF sp' k n(2), of 2] ne len by (auto simp: elems_def)
  show ?thesis
    by (simp add: primIf_def a b c d bnd_simps)
qed

lemma primIf_cond_throws:
  assumes sp: "spine (heap s) args cs nil" and len: "length cs = 2 \<or> length cs = 3"
    and k: "length cs < k"
    and e: "ev env (hd (elems (heap s) cs)) s = Throw err s'"
  shows "primIf k ev env args s = Throw err s'"
proof -
  have n: "typeOf (heap s nil) \<noteq> TPair"
    using spine_end[OF sp] by simp
  have ne: "cs \<noteq> []" using len by auto
  have hd: "hd (elems (heap s) cs) = car (heap s (cs ! 0))"
    using ne by (cases cs) (simp_all add: elems_def)
  have a: "checkArity k args 2 3 s = Ok () s"
    using len ne by (auto simp: checkArity_spine[OF sp k])
  have b: "evalArg k ev env args 0 None s = Throw err s'"
    using evalArg_spine[OF sp k n, of ev env 0] e ne len by (auto simp: hd)
  show ?thesis
    by (simp add: primIf_def a b bnd_simps)
qed

lemma evaluate_Nil: "heap s v = ObjNil \<Longrightarrow> evaluate (Suc n) env v s = Ok v s"
  by (simp add: evaluate_body_def)

lemma primIf_two_false:
  assumes sp: "spine (heap s) args [p, q] nil" and n: "2 < n"
    and e: "evaluate n env (car (heap s p)) s = Ok cond s'" and c: "cond \<noteq> trueSym"
    and sp': "spine (heap s') args [p, q] nil" and z: "heap s' nil = ObjNil"
  shows "primIf n (evaluate n) env args s = Ok nil s'"
proof -
  obtain m where m: "n = Suc m" using n by (cases n) auto
  have "primIf n (evaluate n) env args s = evaluate n env nil s'"
    using primIf_spine[of s args "[p, q]" n "evaluate n" env cond s'] sp n e sp' c
    by (simp add: elems_def)
  thus ?thesis using evaluate_Nil[OF z, of m env] m by simp
qed

lemma if2_read:
  "read 30 (newReader src_if2) defaultState = Ok (Some 96, \<lparr>source = src_if2, pos = 10\<rparr>) if2State"
  by (simp add: src_if2_def if2State_def ev_defs fuel_simps cong: evcongs)

lemma if2_eval: "evaluate 30 2 96 if2State = Ok nil if2State"
  by (simp add: if2State_def nil_def ev_defs fuel_simps cong: evcongs)

lemma if3_read:
  "read 30 (newReader src_if3) defaultState = Ok (Some 96, \<lparr>source = src_if3, pos = 21\<rparr>) if3State"
  by (simp add: src_if3_def if3State_def ev_defs fuel_simps cong: evcongs)

lemma if3_eval: "evaluate 30 2 96 if3State = Ok 100 if3State"
  by (simp add: if3State_def ev_defs fuel_simps cong: evcongs)

lemma ift_eval:
  "(case replLine 30 2 src_ift defaultState of
      Ok (Some v) s \<Rightarrow> heap s v = ObjString ''yup''
    | _ \<Rightarrow> False)"
  by (simp add: src_ift_def ev_defs fuel_simps cong: evcongs)

lemma if1_eval:
  "(case replLine 30 2 src_if1 defaultState of
      Ok (Some v) s \<Rightarrow> heap s v = ObjString ''nope''
    | _ \<Rightarrow> False)"
  by (simp add: src_if1_def ev_defs fuel_simps cong: evcongs)

lemma if_cells:
  "heap if2State 0 = ObjNil" "heap if2State 96 = ObjPair 52 97" "heap if2State 97 = ObjPair 3 99"
  "heap if2State 99 = ObjPair 98 0" "heap if2State 98 = ObjNum (IntNum 1)"
  "heap if3State 0 = ObjNil" "heap if3State 96 = ObjPair 52 97" "heap if3State 97 = ObjPair 3 99"
  "heap if3State 99 = ObjPair 98 101" "heap if3State 101 = ObjPair 100 0"
  "heap if3State 98 = ObjString ''yup''" "heap if3State 100 = ObjString ''nope''"
  by (simp_all add: if2State_def if3State_def defaultState_heap)

lemma if_cond_eval:
  "evaluate 30 2 3 if2State = Ok nil if2State" "evaluate 30 2 3 if3State = Ok nil if3State"
  by (simp_all add: if2State_def if3State_def nil_def ev_defs fuel_simps cong: evcongs)

lemma if_else_eval: "evaluate 30 2 100 if3State = Ok 100 if3State"
  by (simp add: fuel_simps evaluate_body_def if_cells)

text \<open>
  Claim C1. \<open>primIf\<close> throws the arity error unless it has two or three arguments. On two
  or three arguments it evaluates the condition; if that throws, so does the \<open>if\<close>; if it
  returns the object \<open>trueSym\<close> itself, the \<open>if\<close> is the evaluation of the second argument,
  and for every other value, \<open>nil\<close> included, of the third, or of \<open>nil\<close> when there is no
  third. \<open>evaluate\<close> returns \<open>nil\<close> for \<open>nil\<close>, so an \<open>if\<close> of two arguments whose condition
  is not \<open>t\<close> evaluates to \<open>nil\<close>. In the default environment \<open>(if nil "yup" "nope")\<close> is
  the String \<open>nope\<close>, \<open>(if nil 1)\<close> is \<open>nil\<close>, \<open>(if t "yup" "nope")\<close> is \<open>yup\<close> and
  \<open>(if 1 "yup" "nope")\<close> is \<open>nope\<close>.
\<close>

theorem if_selects_on_trueSym:
  "(\<forall>m. listLen k (heap s) args = Some m \<and> (m < 2 \<or> 3 < m) \<longrightarrow>
        primIf k ev env args s = Throw (Error ''arity mismatch'') s)
   \<and> (spine (heap s) args cs nil \<and> (length cs = 2 \<or> length cs = 3) \<and> length cs < k
        \<and> ev env (hd (elems (heap s) cs)) s = Ok cond s' \<and> spine (heap s') args cs nil
      \<longrightarrow> primIf k ev env args s =
            (if cond = trueSym then ev env (elems (heap s') cs ! 1) s'
             else if length cs = 3 then ev env (elems (heap s') cs ! 2) s'
             else ev env nil s'))
   \<and> (spine (heap s) args cs nil \<and> (length cs = 2 \<or> length cs = 3) \<and> length cs < k
        \<and> ev env (hd (elems (heap s) cs)) s = Throw err s'
      \<longrightarrow> primIf k ev env args s = Throw err s')
   \<and> (heap s nil = ObjNil \<longrightarrow> evaluate (Suc n) env nil s = Ok nil s)
   \<and> (spine (heap s) args [p, q] nil \<and> 2 < k
        \<and> evaluate k env (car (heap s p)) s = Ok cond s' \<and> cond \<noteq> trueSym
        \<and> spine (heap s') args [p, q] nil \<and> heap s' nil = ObjNil
      \<longrightarrow> primIf k (evaluate k) env args s = Ok nil s')
   \<and> read 30 (newReader src_if3) defaultState =
        Ok (Some 96, \<lparr>source = src_if3, pos = 21\<rparr>) if3State
   \<and> evaluate 30 2 96 if3State = Ok 100 if3State
   \<and> heap if3State 100 = ObjString ''nope''
   \<and> read 30 (newReader src_if2) defaultState =
        Ok (Some 96, \<lparr>source = src_if2, pos = 10\<rparr>) if2State
   \<and> evaluate 30 2 96 if2State = Ok nil if2State
   \<and> (case replLine 30 2 src_ift defaultState of
         Ok (Some v) s \<Rightarrow> heap s v = ObjString ''yup''
       | _ \<Rightarrow> False)
   \<and> (case replLine 30 2 src_if1 defaultState of
         Ok (Some v) s \<Rightarrow> heap s v = ObjString ''nope''
       | _ \<Rightarrow> False)"
proof -
  have a1: "\<forall>m. listLen k (heap s) args = Some m \<and> (m < 2 \<or> 3 < m) \<longrightarrow>
        primIf k ev env args s = Throw (Error ''arity mismatch'') s"
    using primIf_arity[of k s args _ ev env] by blast
  have a2: "spine (heap s) args cs nil \<and> (length cs = 2 \<or> length cs = 3) \<and> length cs < k
        \<and> ev env (hd (elems (heap s) cs)) s = Ok cond s' \<and> spine (heap s') args cs nil
      \<longrightarrow> primIf k ev env args s =
            (if cond = trueSym then ev env (elems (heap s') cs ! 1) s'
             else if length cs = 3 then ev env (elems (heap s') cs ! 2) s'
             else ev env nil s')"
    using primIf_spine[of s args cs k ev env cond s'] by blast
  have a3: "spine (heap s) args cs nil \<and> (length cs = 2 \<or> length cs = 3) \<and> length cs < k
        \<and> ev env (hd (elems (heap s) cs)) s = Throw err s'
      \<longrightarrow> primIf k ev env args s = Throw err s'"
    using primIf_cond_throws[of s args cs k ev env err s'] by blast
  have a4: "heap s nil = ObjNil \<longrightarrow> evaluate (Suc n) env nil s = Ok nil s"
    using evaluate_Nil[of s nil n env] by blast
  have a5: "spine (heap s) args [p, q] nil \<and> 2 < k
        \<and> evaluate k env (car (heap s p)) s = Ok cond s' \<and> cond \<noteq> trueSym
        \<and> spine (heap s') args [p, q] nil \<and> heap s' nil = ObjNil
      \<longrightarrow> primIf k (evaluate k) env args s = Ok nil s'"
    using primIf_two_false[of s args p q k env cond s'] by blast
  have a6: "heap if3State 100 = ObjString ''nope''" by (simp add: if_cells)
  show ?thesis
    by (intro conjI) (rule a1, rule a2, rule a3, rule a4, rule a5, rule if3_read, rule if3_eval,
        rule a6, rule if2_read, rule if2_eval, rule ift_eval, rule if1_eval)
qed

theorem if_selects_on_trueSym_witness:
  "listLen 30 (heap if3State) 99 = Some 2 \<and> listLen 30 (heap if3State) 101 = Some 1
   \<and> primIf 30 (evaluate 30) 2 101 if3State = Throw (Error ''arity mismatch'') if3State
   \<and> spine (heap if3State) 97 [97, 99, 101] nil
   \<and> elems (heap if3State) [97, 99, 101] = [3, 98, 100]
   \<and> evaluate 30 2 3 if3State = Ok nil if3State \<and> nil \<noteq> trueSym
   \<and> primIf 30 (evaluate 30) 2 97 if3State = Ok 100 if3State
   \<and> heap if3State 100 = ObjString ''nope''
   \<and> spine (heap if2State) 97 [97, 99] nil
   \<and> evaluate 30 2 3 if2State = Ok nil if2State
   \<and> heap if2State nil = ObjNil
   \<and> evaluate 30 2 nil if2State = Ok nil if2State
   \<and> primIf 30 (evaluate 30) 2 97 if2State = Ok nil if2State"
proof -
  have sp3: "spine (heap if3State) 97 [97, 99, 101] nil"
    and sp2: "spine (heap if2State) 97 [97, 99] nil"
    by (simp_all add: if_cells nil_def)
  have el: "elems (heap if3State) [97, 99, 101] = [3, 98, 100]"
    by (simp add: elems_def if_cells)
  have ll: "listLen 30 (heap if3State) 99 = Some 2" "listLen 30 (heap if3State) 101 = Some 1"
    by (simp_all add: listLen_def if_cells fuel_simps nil_def)
  have z: "heap if2State nil = ObjNil" "nil \<noteq> trueSym"
    by (simp_all add: nil_def trueSym_def if_cells)
  have ar: "primIf 30 (evaluate 30) 2 101 if3State = Throw (Error ''arity mismatch'') if3State"
    using if_selects_on_trueSym[where k = 30 and s = if3State and args = 101
        and ev = "evaluate 30" and env = 2] ll
    by simp
  have t3: "primIf 30 (evaluate 30) 2 97 if3State = Ok 100 if3State"
    using if_selects_on_trueSym[where k = 30 and s = if3State and args = 97
        and ev = "evaluate 30" and env = 2 and cs = "[97, 99, 101]" and cond = nil
        and s' = if3State] sp3 el if_cond_eval z if_else_eval
    by simp
  have t2: "primIf 30 (evaluate 30) 2 97 if2State = Ok nil if2State"
    using if_selects_on_trueSym[where k = 30 and s = if2State and args = 97
        and env = 2 and p = 97 and q = 99 and cond = nil and s' = if2State]
      sp2 if_cond_eval z
    by (simp add: if_cells)
  have en: "evaluate 30 2 nil if2State = Ok nil if2State"
    using if_selects_on_trueSym[where s = if2State and n = 29 and env = 2] z
    by simp
  show ?thesis
    using sp3 sp2 el ll z ar t3 t2 en if_cond_eval by (simp add: if_cells)
qed

section \<open>The two generations of \<open>=\<close>\<close>

lemma primEqual_arity:
  "listLen k (heap s) args = Some n \<Longrightarrow> n \<noteq> 2 \<Longrightarrow>
     primEqual k ev env args s = Throw (Error ''arity mismatch'') s"
  by (auto simp: primEqual_def checkArity_def bnd_simps)

lemma primEqual_two:
  assumes sp: "spine (heap s) args [c1, c2] nil" and k: "2 < k"
    and e1: "ev env (car (heap s c1)) s = Ok a s1"
    and sp1: "spine (heap s1) args [c1, c2] nil"
    and e2: "ev env (car (heap s1 c2)) s1 = Ok b s2"
    and eq: "equal k (heap s2) a b = Some r"
  shows "primEqual k ev env args s = Ok (if r then trueSym else nil) s2"
proof -
  have n: "typeOf (heap s nil) \<noteq> TPair" "typeOf (heap s1 nil) \<noteq> TPair"
    using spine_end[OF sp] spine_end[OF sp1] by simp_all
  have l: "length [c1, c2] < k" using k by simp
  have a: "checkArity k args 2 2 s = Ok () s"
    by (simp add: checkArity_spine[OF sp l])
  have b: "evalArg k ev env args 0 None s = Ok a s1"
    using evalArg_spine[OF sp l n(1), of ev env 0] e1 by simp
  have c: "evalArg k ev env args (Suc 0) None s1 = Ok b s2"
    using evalArg_spine[OF sp1 l n(2), of ev env "Suc 0"] e2 by simp
  show ?thesis
    by (simp add: primEqual_def a b c eq bnd_simps boolObj_def)
qed

lemma primEqual_old_fold:
  "foldl (\<lambda>acc x. case acc of (None, eq) \<Rightarrow> (Some x, eq)
                   | (Some prev, eq) \<Rightarrow> if \<not> eq then (Some prev, eq) else (Some prev, x = prev))
     (Some p, e) xs = (Some p, e \<and> list_all (\<lambda>x. x = p) xs)"
  by (induction xs arbitrary: e) auto

lemma primEqual_old_spine:
  assumes sp: "spine (heap s) args cs t" and k: "length cs < k"
  shows "primEqual_old k env args s =
     Ok (if list_all (\<lambda>x. x = hd (elems (heap s) cs)) (tl (elems (heap s) cs))
         then trueSym else nil) s"
proof -
  let ?f = "\<lambda>x acc. case acc of (None, eq) \<Rightarrow> (Some x, eq)
                   | (Some prev, eq) \<Rightarrow> if \<not> eq then (Some prev, eq) else (Some prev, x = prev)"
  have st: "\<And>x acc. primEqual_old_step x acc s = Ok (?f x acc) s"
    by (auto simp: primEqual_old_step_def split: prod.splits option.splits)
  have fe: "forEach k args primEqual_old_step (None, True) s =
      Ok (foldl (\<lambda>a x. ?f x a) (None, True) (elems (heap s) cs)) s"
    by (rule forEach_pure[where cb = primEqual_old_step and f = ?f and s = s, OF st sp k])
  show ?thesis
  proof (cases "elems (heap s) cs")
    case Nil
    thus ?thesis by (simp add: primEqual_old_def fe bnd_simps boolObj_def)
  next
    case (Cons x xs)
    thus ?thesis
      using primEqual_old_fold[of x True xs]
      by (simp add: primEqual_old_def fe bnd_simps boolObj_def)
  qed
qed

lemma read_eq11:
  "read 30 (newReader src_eq11) defaultState =
     Ok (Some 96, \<lparr>source = src_eq11, pos = 7\<rparr>) eq11State"
  by (simp add: src_eq11_def eq11State_def ev_defs fuel_simps cong: evcongs)

lemma eq11_new: "primEqual 30 (evaluate 30) 2 98 eq11State = Ok trueSym eq11State"
  by (simp add: eq11State_def ev_defs fuel_simps cong: evcongs)

lemma eq11_old: "primEqual_old 30 2 98 eq11State = Ok nil eq11State"
  by (simp add: eq11State_def ev_defs fuel_simps primEqual_old_def primEqual_old_step_def
      cong: evcongs)

lemma eq11_cells:
  "heap eq11State 96 = ObjPair 76 98" "heap eq11State 98 = ObjPair 97 100"
  "heap eq11State 100 = ObjPair 99 0" "heap eq11State 97 = ObjNum (IntNum 1)"
  "heap eq11State 99 = ObjNum (IntNum 1)" "heap eq11State 0 = ObjNil"
  by (simp_all add: eq11State_def defaultState_heap)

text \<open>
  Claim C8. The \<open>=\<close> of the current generation (\<open>primEqual\<close>) throws the arity error unless
  its argument list has length 2; on a list of two elements it evaluates the first, then
  the second, and returns \<open>t\<close> or \<open>nil\<close> as \<open>equal\<close> finds the two results. The \<open>=\<close> of the
  superseded generation (\<open>primEqual_old\<close>) takes a list of any length, evaluates nothing,
  leaves the state as it is, and returns \<open>t\<close> exactly when every element after the first
  is the same object as the first. They differ on \<open>(= 1 1)\<close> as the reader reads it: the
  two numerals are two Number objects, on which the current generation returns \<open>t\<close> and
  the superseded one \<open>nil\<close>.
\<close>

theorem primEqual_generations_differ:
  "(\<forall>n. listLen k (heap s) args = Some n \<and> n \<noteq> 2 \<longrightarrow>
        primEqual k ev env args s = Throw (Error ''arity mismatch'') s)
   \<and> (spine (heap s) args [p, q] nil \<and> 2 < k
        \<and> ev env (car (heap s p)) s = Ok a s' \<and> spine (heap s') args [p, q] nil
        \<and> ev env (car (heap s' q)) s' = Ok b s'' \<and> equal k (heap s'') a b = Some r
      \<longrightarrow> primEqual k ev env args s = Ok (if r then trueSym else nil) s'')
   \<and> (spine (heap s) args cs t \<and> length cs < k \<longrightarrow>
        primEqual_old k env args s =
          Ok (if list_all (\<lambda>x. x = hd (elems (heap s) cs)) (tl (elems (heap s) cs))
              then trueSym else nil) s)
   \<and> read 30 (newReader src_eq11) defaultState =
        Ok (Some 96, \<lparr>source = src_eq11, pos = 7\<rparr>) eq11State
   \<and> cdr (heap eq11State 96) = 98
   \<and> primEqual 30 (evaluate 30) 2 98 eq11State = Ok trueSym eq11State
   \<and> primEqual_old 30 2 98 eq11State = Ok nil eq11State
   \<and> trueSym \<noteq> nil"
proof -
  have a1: "\<forall>n. listLen k (heap s) args = Some n \<and> n \<noteq> 2 \<longrightarrow>
        primEqual k ev env args s = Throw (Error ''arity mismatch'') s"
    using primEqual_arity[of k s args _ ev env] by blast
  have a2: "spine (heap s) args [p, q] nil \<and> 2 < k
        \<and> ev env (car (heap s p)) s = Ok a s' \<and> spine (heap s') args [p, q] nil
        \<and> ev env (car (heap s' q)) s' = Ok b s'' \<and> equal k (heap s'') a b = Some r
      \<longrightarrow> primEqual k ev env args s = Ok (if r then trueSym else nil) s''"
    using primEqual_two[of s args p q k ev env a s' b s'' r] by blast
  have a3: "spine (heap s) args cs t \<and> length cs < k \<longrightarrow>
        primEqual_old k env args s =
          Ok (if list_all (\<lambda>x. x = hd (elems (heap s) cs)) (tl (elems (heap s) cs))
              then trueSym else nil) s"
    using primEqual_old_spine[of s args cs t k env] by blast
  have c5: "cdr (heap eq11State 96) = 98" by (simp add: eq11_cells)
  have c8: "trueSym \<noteq> nil" by (simp add: trueSym_def nil_def)
  show ?thesis
    by (intro conjI) (rule a1, rule a2, rule a3, rule read_eq11, rule c5, rule eq11_new,
        rule eq11_old, rule c8)
qed

theorem primEqual_generations_differ_witness:
  "listLen 30 (heap eq11State) 96 = Some 3
   \<and> primEqual 30 (evaluate 30) 2 96 eq11State = Throw (Error ''arity mismatch'') eq11State
   \<and> spine (heap eq11State) 98 [98, 100] nil
   \<and> elems (heap eq11State) [98, 100] = [97, 99]
   \<and> evaluate 30 2 97 eq11State = Ok 97 eq11State
   \<and> evaluate 30 2 99 eq11State = Ok 99 eq11State
   \<and> equal 30 (heap eq11State) 97 99 = Some True
   \<and> primEqual 30 (evaluate 30) 2 98 eq11State = Ok trueSym eq11State
   \<and> primEqual_old 30 2 98 eq11State = Ok nil eq11State"
proof -
  have sp: "spine (heap eq11State) 98 [98, 100] nil"
    by (simp add: eq11_cells nil_def)
  have el: "elems (heap eq11State) [98, 100] = [97, 99]"
    by (simp add: elems_def eq11_cells)
  have ll: "listLen 30 (heap eq11State) 96 = Some 3"
    by (simp add: listLen_def eq11_cells fuel_simps nil_def)
  have e1: "evaluate 30 2 97 eq11State = Ok 97 eq11State"
    and e2: "evaluate 30 2 99 eq11State = Ok 99 eq11State"
    by (simp_all add: fuel_simps evaluate_body_def eq11_cells)
  have eq: "equal 30 (heap eq11State) 97 99 = Some True"
    by (simp add: fuel_simps eq11_cells)
  have ar: "primEqual 30 (evaluate 30) 2 96 eq11State = Throw (Error ''arity mismatch'') eq11State"
    using primEqual_generations_differ[where k = 30 and s = eq11State and args = 96
        and ev = "evaluate 30" and env = 2] ll
    by simp
  have new: "primEqual 30 (evaluate 30) 2 98 eq11State = Ok trueSym eq11State"
    and old: "primEqual_old 30 2 98 eq11State = Ok nil eq11State"
    using primEqual_generations_differ[where k = 30 and s = eq11State and args = 98
        and ev = "evaluate 30" and env = 2 and p = 98 and q = 100 and a = 97
        and s' = eq11State and b = 99 and s'' = eq11State and r = True and cs = "[98, 100]"
        and t = nil] sp el e1 e2 eq
    by (simp_all add: eq11_cells)
  show ?thesis
    using sp el ll e1 e2 eq ar new old by simp
qed

section \<open>New environments: arity and bindings\<close>



lemma bind_push_short:
  "pushEnv 5 13 4 14 bindState =
     Throw (Error ''env: mismatched number of vars and values'') bindState"
  by (simp add: bindState_def ev_defs fuel_simps cong: evcongs)






section \<open>Parameters that occur more than once\<close>







end
